theory Spec2Isabelle
  imports Complex_Main "HOL-Library.AList"
begin

section \<open>Values, exceptions and the Python runtime\<close>

text \<open>
  The client of \<^verbatim>\<open>solr_client.py\<close> receives decoded JSON from the engine and handles it
  dynamically (\<^verbatim>\<open>Dict[str, Any]\<close>). The values are modelled by one datatype; a Python
  dict is an association list in insertion order, whose keys are distinct.
\<close>

datatype jval =
    JNull
  | JBool bool
  | JInt int
  | JFloat rat
  | JStr string
  | JList "jval list"
  | JDict "(string \<times> jval) list"

text \<open>
  Exceptions carry their class and the text that \<^verbatim>\<open>str(e)\<close> gives. \<open>PyException\<close> stands
  for every subclass of \<^verbatim>\<open>Exception\<close> that is neither \<^verbatim>\<open>pysolr.SolrError\<close> nor one of the
  client's own classes (timeouts, refused connections, \<^verbatim>\<open>TypeError\<close>, validation errors).
\<close>

datatype exn_class = SolrError | PyException | SOLRConnectionError | SOLRQueryError

datatype exn = Exn exn_class string

fun exn_cls :: "exn \<Rightarrow> exn_class" where
  "exn_cls (Exn c m) = c"

fun exn_str :: "exn \<Rightarrow> string" where
  "exn_str (Exn c m) = m"

text \<open>
  What the code takes from the interpreter and from pydantic, and what this theory does not
  define, is a parameter of the model:
  \<^item> \<open>hash_str\<close>: the builtin \<^verbatim>\<open>hash\<close> on \<^verbatim>\<open>str\<close>, which CPython salts with a seed drawn
    per process;
  \<^item> \<open>repr_val\<close>: the builtin \<^verbatim>\<open>str\<close> on floats, lists and dicts;
  \<^item> \<open>coerce_int\<close>, \<open>coerce_str\<close>, \<open>coerce_float\<close>, \<open>coerce_list\<close>: what pydantic does with
    a value whose type is not the declared type of the field (it converts the value or
    raises).
\<close>

record runtime =
  hash_str :: "string \<Rightarrow> int"
  repr_val :: "jval \<Rightarrow> string"
  coerce_int :: "jval \<Rightarrow> exn + int"
  coerce_str :: "jval \<Rightarrow> exn + string"
  coerce_float :: "jval \<Rightarrow> exn + rat"
  coerce_list :: "jval \<Rightarrow> exn + jval list"

subsection \<open>\<^verbatim>\<open>str\<close> of a value\<close>

definition digit_char :: "nat \<Rightarrow> char" where
  "digit_char d = ''0123456789'' ! d"

fun str_nat :: "nat \<Rightarrow> string" where
  "str_nat n = (if n < 10 then [digit_char n] else str_nat (n div 10) @ [digit_char (n mod 10)])"

declare str_nat.simps [simp del]

definition str_int :: "int \<Rightarrow> string" where
  "str_int i = (if i < 0 then CHR ''-'' # str_nat (nat (- i)) else str_nat (nat i))"

definition py_str :: "runtime \<Rightarrow> jval \<Rightarrow> string" where
  "py_str rt v =
     (case v of
        JStr s \<Rightarrow> s
      | JInt i \<Rightarrow> str_int i
      | JBool b \<Rightarrow> (if b then ''True'' else ''False'')
      | JNull \<Rightarrow> ''None''
      | _ \<Rightarrow> repr_val rt v)"

subsection \<open>Field validation of the pydantic models\<close>

text \<open>A value of the declared type is taken as it is; anything else is up to pydantic.\<close>

definition validate_int :: "runtime \<Rightarrow> jval \<Rightarrow> exn + int" where
  "validate_int rt v = (case v of JInt i \<Rightarrow> Inr i | _ \<Rightarrow> coerce_int rt v)"

definition validate_str :: "runtime \<Rightarrow> jval \<Rightarrow> exn + string" where
  "validate_str rt v = (case v of JStr s \<Rightarrow> Inr s | _ \<Rightarrow> coerce_str rt v)"

definition validate_float :: "runtime \<Rightarrow> jval \<Rightarrow> exn + rat" where
  "validate_float rt v = (case v of JFloat r \<Rightarrow> Inr r | _ \<Rightarrow> coerce_float rt v)"

text \<open>A field declared \<^verbatim>\<open>List[str]\<close>: the elements are validated in order.\<close>

fun validate_strs :: "runtime \<Rightarrow> jval list \<Rightarrow> exn + string list" where
  "validate_strs rt [] = Inr []"
| "validate_strs rt (v # vs) =
     (case validate_str rt v of
        Inl e \<Rightarrow> Inl e
      | Inr s \<Rightarrow> (case validate_strs rt vs of Inl e \<Rightarrow> Inl e | Inr ss \<Rightarrow> Inr (s # ss)))"

definition validate_str_list :: "runtime \<Rightarrow> jval \<Rightarrow> exn + string list" where
  "validate_str_list rt v =
     (case v of
        JList vs \<Rightarrow> validate_strs rt vs
      | _ \<Rightarrow> (case coerce_list rt v of Inl e \<Rightarrow> Inl e | Inr vs \<Rightarrow> validate_strs rt vs))"

section \<open>The result model\<close>

record FacetValue =
  fv_value :: string
  fv_count :: int

record FacetField =
  ff_name :: string
  ff_values :: "FacetValue list"

text \<open>\<^verbatim>\<open>FacetValue(value=v, count=c)\<close>: \<open>v\<close> is already a \<^verbatim>\<open>str\<close>, \<open>c\<close> is validated.\<close>

definition mk_FacetValue :: "runtime \<Rightarrow> string \<Rightarrow> jval \<Rightarrow> exn + FacetValue" where
  "mk_FacetValue rt v c =
     (case validate_int rt c of
        Inl e \<Rightarrow> Inl e
      | Inr n \<Rightarrow> Inr \<lparr>fv_value = v, fv_count = n\<rparr>)"

section \<open>Decoding one facet field\<close>

text \<open>
  The inner loop of \<^verbatim>\<open>_process_search_response\<close>:
  \<^verbatim>\<open>for i in range(0, len(field_values), 2):
      if i + 1 < len(field_values):
          facet_values.append(FacetValue(value=str(field_values[i]), count=field_values[i + 1]))\<close>
\<close>

function facet_values_loop ::
  "runtime \<Rightarrow> jval list \<Rightarrow> nat \<Rightarrow> FacetValue list \<Rightarrow> exn + FacetValue list" where
  "facet_values_loop rt field_values i facet_values =
     (if i < length field_values then
        (if i + 1 < length field_values then
           (case mk_FacetValue rt (py_str rt (field_values ! i)) (field_values ! (i + 1)) of
              Inl e \<Rightarrow> Inl e
            | Inr x \<Rightarrow> facet_values_loop rt field_values (i + 2) (facet_values @ [x]))
         else facet_values_loop rt field_values (i + 2) facet_values)
      else Inr facet_values)"
  by pat_completeness auto
termination
  by (relation "measure (\<lambda>(rt, field_values, i, facet_values). length field_values - i)") auto

declare facet_values_loop.simps [simp del]

definition decode_facet_values :: "runtime \<Rightarrow> jval list \<Rightarrow> exn + FacetValue list" where
  "decode_facet_values rt field_values = facet_values_loop rt field_values 0 []"

section \<open>Configuration\<close>

record SOLRConfig =
  base_url :: string
  collection :: string
  username :: "string option"
  password :: "string option"
  timeout :: int
  verify_ssl :: bool
  max_rows :: int
  default_search_field :: string
  facet_limit :: int
  highlight_enabled :: bool

text \<open>The validator of \<open>max_rows\<close> in \<^verbatim>\<open>config.py\<close>.\<close>

definition validate_max_rows :: "int \<Rightarrow> exn + int" where
  "validate_max_rows v =
     (if v \<le> 0 then Inl (Exn PyException ''Max rows must be positive'')
      else if v > 10000 then
        Inl (Exn PyException ''Max rows should not exceed 10000 for performance reasons'')
      else Inr v)"

section \<open>Building the wire parameters\<close>

text \<open>
  A dict is an association list; \<^verbatim>\<open>d[k] = v\<close> is \<^const>\<open>AList.update\<close> (the value is
  replaced where the key is, a new key goes to the end), \<^verbatim>\<open>d.get(k)\<close> is \<^const>\<open>map_of\<close>.
  \<^verbatim>\<open>{..., **kwargs}\<close> stores the entries of \<open>kwargs\<close> one after the other.
\<close>

type_synonym params = "(string \<times> jval) list"

definition dict_merge :: "('k \<times> 'v) list \<Rightarrow> ('k \<times> 'v) list \<Rightarrow> ('k \<times> 'v) list" where
  "dict_merge d kw = fold (\<lambda>(k, v) acc. AList.update k v acc) kw d"

text \<open>\<^verbatim>\<open>sep.join(xs)\<close>.\<close>

fun join :: "string \<Rightarrow> string list \<Rightarrow> string" where
  "join sep [] = []"
| "join sep [x] = x"
| "join sep (x # y # ys) = x @ sep @ join sep (y # ys)"

text \<open>Truth value of an optional string and of an optional list: \<^verbatim>\<open>None\<close> and empty are false.\<close>

definition truthy :: "'a list option \<Rightarrow> bool" where
  "truthy x = (case x of None \<Rightarrow> False | Some xs \<Rightarrow> xs \<noteq> [])"

definition strs :: "string list \<Rightarrow> jval" where
  "strs xs = JList (map JStr xs)"

text \<open>
  The arguments of \<^verbatim>\<open>search\<close>. \<open>arg_kwargs\<close> holds the extra keyword arguments; Python
  binds a keyword named like a parameter to that parameter, so \<open>arg_kwargs\<close> never has
  one of the keys in \<open>search_parameter_names\<close>.
\<close>

record search_args =
  arg_query :: string
  arg_default_field :: "string option"
  arg_fields :: "string list option"
  arg_start :: int
  arg_rows :: "int option"
  arg_sort :: "string option"
  arg_filters :: "string list option"
  arg_facet_fields :: "string list option"
  arg_highlight_fields :: "string list option"
  arg_suggest :: bool
  arg_kwargs :: params

definition search_parameter_names :: "string list" where
  "search_parameter_names =
     [''self'', ''query'', ''default_field'', ''fields'', ''start'', ''rows'', ''sort'',
      ''filters'', ''facet_fields'', ''highlight_fields'', ''suggest'']"

definition kwargs_ok :: "params \<Rightarrow> bool" where
  "kwargs_ok kw = (distinct (map fst kw) \<and> list_all (\<lambda>k. k \<notin> set search_parameter_names) (map fst kw))"

text \<open>
  The first half of the body of \<^verbatim>\<open>search\<close>, up to the call of the transport: the dict
  \<^verbatim>\<open>search_params\<close> is created and then changed by one block of the source after the other.
  Each block is a function here, named after the comment that heads it.
\<close>

text \<open>\<^verbatim>\<open>if rows is None: rows = min(self.config.max_rows, 100)\<close>\<close>

definition default_rows :: "SOLRConfig \<Rightarrow> int option \<Rightarrow> int" where
  "default_rows cfg rows = (case rows of None \<Rightarrow> min (max_rows cfg) 100 | Some r \<Rightarrow> r)"

text \<open>\<^verbatim>\<open>search_params = {"q": query, "start": start, "rows": rows, **kwargs}\<close>\<close>

definition build_search_parameters :: "SOLRConfig \<Rightarrow> search_args \<Rightarrow> params" where
  "build_search_parameters cfg a =
     dict_merge [(''q'', JStr (arg_query a)), (''start'', JInt (arg_start a)),
                 (''rows'', JInt (default_rows cfg (arg_rows a)))] (arg_kwargs a)"

definition add_default_field :: "search_args \<Rightarrow> params \<Rightarrow> params" where
  "add_default_field a p =
     (if truthy (arg_default_field a)
      then AList.update ''df'' (JStr (the (arg_default_field a))) p else p)"

definition add_field_list :: "search_args \<Rightarrow> params \<Rightarrow> params" where
  "add_field_list a p =
     (if truthy (arg_fields a)
      then AList.update ''fl'' (JStr (join '','' (the (arg_fields a)))) p else p)"

definition add_sort :: "search_args \<Rightarrow> params \<Rightarrow> params" where
  "add_sort a p =
     (if truthy (arg_sort a) then AList.update ''sort'' (JStr (the (arg_sort a))) p else p)"

definition add_filter_queries :: "search_args \<Rightarrow> params \<Rightarrow> params" where
  "add_filter_queries a p =
     (if truthy (arg_filters a) then AList.update ''fq'' (strs (the (arg_filters a))) p else p)"

definition add_faceting :: "SOLRConfig \<Rightarrow> search_args \<Rightarrow> params \<Rightarrow> params" where
  "add_faceting cfg a p =
     (if truthy (arg_facet_fields a)
      then AList.update ''facet.mincount'' (JInt 1)
             (AList.update ''facet.limit'' (JInt (facet_limit cfg))
               (AList.update ''facet.field'' (strs (the (arg_facet_fields a)))
                 (AList.update ''facet'' (JStr ''true'') p)))
      else p)"

definition add_highlighting :: "SOLRConfig \<Rightarrow> search_args \<Rightarrow> params \<Rightarrow> params" where
  "add_highlighting cfg a p =
     (if truthy (arg_highlight_fields a) \<and> highlight_enabled cfg
      then AList.update ''hl.simple.post'' (JStr ''</mark>'')
             (AList.update ''hl.simple.pre'' (JStr ''<mark>'')
               (AList.update ''hl.fl'' (JStr (join '','' (the (arg_highlight_fields a))))
                 (AList.update ''hl'' (JStr ''true'') p)))
      else if highlight_enabled cfg \<and> \<not> truthy (arg_highlight_fields a)
      then AList.update ''hl.simple.post'' (JStr ''</mark>'')
             (AList.update ''hl.simple.pre'' (JStr ''<mark>'')
               (AList.update ''hl.fl'' (JStr ''*'')
                 (AList.update ''hl'' (JStr ''true'') p)))
      else p)"

definition add_suggestions :: "search_args \<Rightarrow> params \<Rightarrow> params" where
  "add_suggestions a p =
     (if arg_suggest a
      then AList.update ''spellcheck.collate'' (JStr ''true'')
             (AList.update ''spellcheck.build'' (JStr ''true'')
               (AList.update ''spellcheck'' (JStr ''true'') p))
      else p)"

definition search_params :: "SOLRConfig \<Rightarrow> search_args \<Rightarrow> params" where
  "search_params cfg a =
     add_suggestions a
       (add_highlighting cfg a
         (add_faceting cfg a
           (add_filter_queries a
             (add_sort a
               (add_field_list a
                 (add_default_field a
                   (build_search_parameters cfg a)))))))"

section \<open>The raw reply and the transport\<close>

text \<open>
  \<^verbatim>\<open>pysolr.Results\<close>, typed as the code reads it. \<open>res_start\<close> is \<open>None\<close> when the object has
  no attribute \<^verbatim>\<open>start\<close>; each other optional attribute is \<open>None\<close> when it is absent or
  \<^verbatim>\<open>None\<close>. \<open>res_facets\<close> maps a section name (\<^verbatim>\<open>facet_fields\<close>) to a dict from field name to
  the flat list of the engine; \<open>res_spellcheck\<close> maps a section name (\<^verbatim>\<open>suggestions\<close>) to a
  dict from term to whatever the engine sent for it.
\<close>

record Results =
  res_docs :: "(string \<times> jval) list list"
  res_hits :: int
  res_start :: "int option"
  res_qtime :: "int option"
  res_highlighting :: "(string \<times> (string \<times> string list) list) list option"
  res_facets :: "(string \<times> (string \<times> jval list) list) list option"
  res_spellcheck :: "(string \<times> (string \<times> jval) list) list option"

text \<open>
  The \<^verbatim>\<open>pysolr.Solr\<close> object. \<open>solr_ping n\<close> is what the call number \<open>n\<close> of \<^verbatim>\<open>ping()\<close> does
  (it returns or raises); \<open>solr_search p\<close> is what \<^verbatim>\<open>search(**p)\<close> does.
\<close>

record Solr =
  solr_ping :: "nat \<Rightarrow> exn + unit"
  solr_search :: "params \<Rightarrow> exn + Results"

text \<open>The effects of the client outside itself: the pings sent and the calls of \<^verbatim>\<open>time.sleep\<close>.\<close>

record world =
  pings :: nat
  slept :: "rat list"

record SOLRClient =
  config :: SOLRConfig
  solr :: "Solr option"

text \<open>Calling a method of \<^verbatim>\<open>self._solr\<close> after \<^verbatim>\<open>close()\<close> has set it to \<^verbatim>\<open>None\<close>.\<close>

definition quoted :: "string \<Rightarrow> string" where
  "quoted s = CHR 0x27 # s @ [CHR 0x27]"

definition none_attribute_error :: "string \<Rightarrow> exn" where
  "none_attribute_error name =
     Exn PyException (quoted ''NoneType'' @ '' object has no attribute '' @ quoted name)"

definition call_ping :: "Solr \<Rightarrow> world \<Rightarrow> (exn + unit) \<times> world" where
  "call_ping s w = (solr_ping s (pings w), w\<lparr>pings := Suc (pings w)\<rparr>)"

definition sleep :: "rat \<Rightarrow> world \<Rightarrow> world" where
  "sleep d w = w\<lparr>slept := slept w @ [d]\<rparr>"

section \<open>Connection\<close>

text \<open>
  \<^verbatim>\<open>_ping_with_retry\<close>: the loop \<^verbatim>\<open>for attempt in range(max_retries)\<close>, from \<open>attempt\<close> on.
\<close>

function ping_with_retry_loop :: "Solr \<Rightarrow> int \<Rightarrow> nat \<Rightarrow> world \<Rightarrow> (exn + unit) \<times> world" where
  "ping_with_retry_loop s max_retries attempt w =
     (if int attempt < max_retries then
        (case call_ping s w of
           (Inr u, w1) \<Rightarrow> (Inr (), w1)
         | (Inl e, w1) \<Rightarrow>
             (if int attempt = max_retries - 1 then (Inl e, w1)
              else ping_with_retry_loop s max_retries (attempt + 1)
                     (sleep (1 / 2 * of_nat (attempt + 1)) w1)))
      else (Inr (), w))"
  by pat_completeness auto
termination
  by (relation "measure (\<lambda>(s, max_retries, attempt, w). nat (max_retries - int attempt))") auto

declare ping_with_retry_loop.simps [simp del]

definition ping_with_retry :: "Solr \<Rightarrow> int \<Rightarrow> world \<Rightarrow> (exn + unit) \<times> world" where
  "ping_with_retry s max_retries w = ping_with_retry_loop s max_retries 0 w"

text \<open>
  What \<^verbatim>\<open>_initialize_connection\<close> takes from libraries: \<^verbatim>\<open>urljoin\<close> and the constructor
  \<^verbatim>\<open>pysolr.Solr(url, auth=, timeout=, verify=, session=)\<close> with the pooled session of
  \<^verbatim>\<open>_create_session\<close>, which returns the transport object or raises.
\<close>

record libs =
  urljoin :: "string \<Rightarrow> string \<Rightarrow> string"
  pysolr_Solr :: "string \<Rightarrow> (string \<times> string) option \<Rightarrow> int \<Rightarrow> bool \<Rightarrow> exn + Solr"

text \<open>The first statements of \<^verbatim>\<open>_initialize_connection\<close>: the transport object is built.\<close>

definition new_solr :: "libs \<Rightarrow> SOLRConfig \<Rightarrow> exn + Solr" where
  "new_solr l cfg =
     (let collection_url = urljoin l (base_url cfg @ ''/'') (collection cfg @ ''/'');
          auth = (if truthy (username cfg) \<and> truthy (password cfg)
                  then Some (the (username cfg), the (password cfg)) else None)
      in pysolr_Solr l collection_url auth (timeout cfg) (verify_ssl cfg))"

text \<open>\<^verbatim>\<open>raise SOLRConnectionError(f"Failed to connect to SOLR: {e}")\<close>\<close>

definition connection_error :: "exn \<Rightarrow> exn" where
  "connection_error e = Exn SOLRConnectionError (''Failed to connect to SOLR: '' @ exn_str e)"

text \<open>
  \<^verbatim>\<open>__init__\<close> with \<^verbatim>\<open>_initialize_connection\<close>: the probe runs with the default
  \<^verbatim>\<open>max_retries=3\<close>, and every exception of the \<^verbatim>\<open>try\<close> block is raised again as a
  \<^verbatim>\<open>SOLRConnectionError\<close>.
\<close>

definition initialize_connection ::
  "libs \<Rightarrow> SOLRConfig \<Rightarrow> world \<Rightarrow> (exn + SOLRClient) \<times> world" where
  "initialize_connection l cfg w =
     (case new_solr l cfg of
        Inl e \<Rightarrow> (Inl (connection_error e), w)
      | Inr s \<Rightarrow>
          (case ping_with_retry s 3 w of
             (Inl e, w1) \<Rightarrow> (Inl (connection_error e), w1)
           | (Inr u, w1) \<Rightarrow> (Inr \<lparr>config = cfg, solr = Some s\<rparr>, w1)))"

text \<open>\<^verbatim>\<open>ping\<close>, \<^verbatim>\<open>close\<close>.\<close>

definition ping :: "SOLRClient \<Rightarrow> world \<Rightarrow> (exn + bool) \<times> world" where
  "ping c w =
     (case solr c of
        Some s \<Rightarrow> (case call_ping s w of
                     (Inr u, w1) \<Rightarrow> (Inr True, w1)
                   | (Inl e, w1) \<Rightarrow> (Inr False, w1))
      | None \<Rightarrow> (Inr False, w))"

definition close :: "SOLRClient \<Rightarrow> SOLRClient" where
  "close c = (case solr c of Some s \<Rightarrow> c\<lparr>solr := None\<rparr> | None \<Rightarrow> c)"

text \<open>\<^verbatim>\<open>self._solr.search(**p)\<close>.\<close>

definition call_search :: "SOLRClient \<Rightarrow> params \<Rightarrow> exn + Results" where
  "call_search c p =
     (case solr c of None \<Rightarrow> Inl (none_attribute_error ''search'') | Some s \<Rightarrow> solr_search s p)"

section \<open>Normalizing the reply\<close>

record SearchResult =
  sr_id :: string
  sr_score :: "rat option"
  sr_fields :: "(string \<times> jval) list"
  sr_highlighting :: "(string \<times> string list) list option"

record SearchResponse =
  results :: "SearchResult list"
  total_found :: int
  start :: int
  rows :: int
  query_time :: "int option"
  facets :: "FacetField list option"
  suggestions :: "(string \<times> string list) list option"

text \<open>\<^verbatim>\<open>doc.get("id", str(hash(str(doc))))\<close>.\<close>

definition doc_id :: "runtime \<Rightarrow> (string \<times> jval) list \<Rightarrow> jval" where
  "doc_id rt doc =
     (case map_of doc ''id'' of
        Some v \<Rightarrow> v
      | None \<Rightarrow> JStr (str_int (hash_str rt (py_str rt (JDict doc)))))"

text \<open>
  \<^verbatim>\<open>response.highlighting.get(doc_id, {})\<close>: the keys of the highlight section are strings; a
  list or a dict cannot be a key.
\<close>

definition highlighting_get ::
  "(string \<times> (string \<times> string list) list) list \<Rightarrow> jval \<Rightarrow> exn + (string \<times> string list) list" where
  "highlighting_get h k =
     (case k of
        JStr s \<Rightarrow> Inr (case map_of h s of None \<Rightarrow> [] | Some d \<Rightarrow> d)
      | JList xs \<Rightarrow> Inl (Exn PyException (''unhashable type: '' @ quoted ''list''))
      | JDict d \<Rightarrow> Inl (Exn PyException (''unhashable type: '' @ quoted ''dict''))
      | _ \<Rightarrow> Inr [])"

text \<open>A field declared \<^verbatim>\<open>Optional[float]\<close>.\<close>

definition validate_opt_float :: "runtime \<Rightarrow> jval option \<Rightarrow> exn + rat option" where
  "validate_opt_float rt v =
     (case v of
        None \<Rightarrow> Inr None
      | Some JNull \<Rightarrow> Inr None
      | Some x \<Rightarrow> (case validate_float rt x of Inl e \<Rightarrow> Inl e | Inr r \<Rightarrow> Inr (Some r)))"

text \<open>The body of the loop over \<^verbatim>\<open>response.docs\<close>.\<close>

definition process_doc ::
  "runtime \<Rightarrow> (string \<times> (string \<times> string list) list) list option \<Rightarrow> (string \<times> jval) list
     \<Rightarrow> exn + SearchResult" where
  "process_doc rt hl doc =
     (let did = doc_id rt doc;
          score = map_of doc ''score'';
          fields = filter (\<lambda>(k, v). k \<notin> set [''id'', ''score'']) doc
      in case (case hl of
                 None \<Rightarrow> Inr None
               | Some h \<Rightarrow>
                   (if h = [] then Inr None
                    else (case highlighting_get h did of
                            Inl e \<Rightarrow> Inl e
                          | Inr dh \<Rightarrow> Inr (if dh = [] then None else Some dh)))) of
           Inl e \<Rightarrow> Inl e
         | Inr highlighting \<Rightarrow>
             (case validate_str rt did of
                Inl e \<Rightarrow> Inl e
              | Inr i \<Rightarrow>
                  (case validate_opt_float rt score of
                     Inl e \<Rightarrow> Inl e
                   | Inr sc \<Rightarrow>
                       Inr \<lparr>sr_id = i, sr_score = sc, sr_fields = fields,
                            sr_highlighting = highlighting\<rparr>)))"

fun process_docs ::
  "runtime \<Rightarrow> (string \<times> (string \<times> string list) list) list option \<Rightarrow> (string \<times> jval) list list
     \<Rightarrow> SearchResult list \<Rightarrow> exn + SearchResult list" where
  "process_docs rt hl [] acc = Inr acc"
| "process_docs rt hl (doc # docs) acc =
     (case process_doc rt hl doc of
        Inl e \<Rightarrow> Inl e
      | Inr r \<Rightarrow> process_docs rt hl docs (acc @ [r]))"

text \<open>The loop over \<^verbatim>\<open>facet_fields.items()\<close>.\<close>

fun facet_fields_loop ::
  "runtime \<Rightarrow> (string \<times> jval list) list \<Rightarrow> FacetField list \<Rightarrow> exn + FacetField list" where
  "facet_fields_loop rt [] acc = Inr acc"
| "facet_fields_loop rt ((field_name, field_values) # rest) acc =
     (case decode_facet_values rt field_values of
        Inl e \<Rightarrow> Inl e
      | Inr facet_values \<Rightarrow>
          facet_fields_loop rt rest
            (if facet_values \<noteq> [] then acc @ [\<lparr>ff_name = field_name, ff_values = facet_values\<rparr>]
             else acc))"

definition process_facets ::
  "runtime \<Rightarrow> (string \<times> (string \<times> jval list) list) list option \<Rightarrow> exn + FacetField list" where
  "process_facets rt f =
     (case f of
        None \<Rightarrow> Inr []
      | Some fs \<Rightarrow>
          (if fs = [] then Inr []
           else facet_fields_loop rt
                  (case map_of fs ''facet_fields'' of None \<Rightarrow> [] | Some d \<Rightarrow> d) []))"

text \<open>The loop over \<^verbatim>\<open>spellcheck_data.items()\<close>.\<close>

fun suggestions_loop :: "(string \<times> jval) list \<Rightarrow> (string \<times> jval) list \<Rightarrow> (string \<times> jval) list" where
  "suggestions_loop [] acc = acc"
| "suggestions_loop ((word, suggestion_data) # rest) acc =
     suggestions_loop rest
       (case suggestion_data of
          JDict d \<Rightarrow> (case map_of d ''suggestion'' of
                       Some v \<Rightarrow> AList.update word v acc
                     | None \<Rightarrow> acc)
        | _ \<Rightarrow> acc)"

definition process_spellcheck ::
  "(string \<times> (string \<times> jval) list) list option \<Rightarrow> (string \<times> jval) list" where
  "process_spellcheck sc =
     (case sc of
        None \<Rightarrow> []
      | Some s \<Rightarrow>
          (if s = [] then []
           else suggestions_loop (case map_of s ''suggestions'' of None \<Rightarrow> [] | Some d \<Rightarrow> d) []))"

text \<open>The field \<^verbatim>\<open>suggestions: Optional[Dict[str, List[str]]]\<close> of the response model.\<close>

fun validate_suggestions ::
  "runtime \<Rightarrow> (string \<times> jval) list \<Rightarrow> exn + (string \<times> string list) list" where
  "validate_suggestions rt [] = Inr []"
| "validate_suggestions rt ((w, v) # rest) =
     (case validate_str_list rt v of
        Inl e \<Rightarrow> Inl e
      | Inr xs \<Rightarrow> (case validate_suggestions rt rest of
                    Inl e \<Rightarrow> Inl e
                  | Inr ys \<Rightarrow> Inr ((w, xs) # ys)))"

text \<open>\<^verbatim>\<open>suggestions=suggestions if suggestions else None\<close>, validated by the response model.\<close>

definition validate_opt_suggestions ::
  "runtime \<Rightarrow> (string \<times> jval) list \<Rightarrow> exn + (string \<times> string list) list option" where
  "validate_opt_suggestions rt sg =
     (if sg \<noteq> [] then
        (case validate_suggestions rt sg of Inl e \<Rightarrow> Inl e | Inr xs \<Rightarrow> Inr (Some xs))
      else Inr None)"

definition process_search_response :: "runtime \<Rightarrow> Results \<Rightarrow> exn + SearchResponse" where
  "process_search_response rt response =
     (case process_docs rt (res_highlighting response) (res_docs response) [] of
        Inl e \<Rightarrow> Inl e
      | Inr rs \<Rightarrow>
          (case process_facets rt (res_facets response) of
             Inl e \<Rightarrow> Inl e
           | Inr fs \<Rightarrow>
               (case validate_opt_suggestions rt (process_spellcheck (res_spellcheck response)) of
                  Inl e \<Rightarrow> Inl e
                | Inr sg \<Rightarrow>
                    Inr \<lparr>results = rs,
                         total_found = res_hits response,
                         start = (case res_start response of None \<Rightarrow> 0 | Some n \<Rightarrow> n),
                         rows = int (length rs),
                         query_time = res_qtime response,
                         facets = (if fs \<noteq> [] then Some fs else None),
                         suggestions = sg\<rparr>)))"

section \<open>The operations\<close>

text \<open>The \<^verbatim>\<open>try\<close> block of \<^verbatim>\<open>search\<close>, and \<^verbatim>\<open>search\<close> with its two \<^verbatim>\<open>except\<close> clauses.\<close>

definition search_try :: "runtime \<Rightarrow> SOLRClient \<Rightarrow> search_args \<Rightarrow> exn + SearchResponse" where
  "search_try rt c a =
     (case call_search c (search_params (config c) a) of
        Inl e \<Rightarrow> Inl e
      | Inr response \<Rightarrow> process_search_response rt response)"

definition search :: "runtime \<Rightarrow> SOLRClient \<Rightarrow> search_args \<Rightarrow> exn + SearchResponse" where
  "search rt c a =
     (case search_try rt c a of
        Inr r \<Rightarrow> Inr r
      | Inl e \<Rightarrow>
          (if exn_cls e = SolrError
           then Inl (Exn SOLRQueryError (''SOLR query failed: '' @ exn_str e))
           else Inl (Exn SOLRQueryError (''Unexpected error during search: '' @ exn_str e))))"

text \<open>
  \<^verbatim>\<open>xs[:n]\<close> on a list: a negative \<open>n\<close> counts from the end.
\<close>

definition slice_to :: "int \<Rightarrow> 'a list \<Rightarrow> 'a list" where
  "slice_to n xs = (if 0 \<le> n then take (nat n) xs else take (nat (int (length xs) + n)) xs)"

text \<open>
  \<^verbatim>\<open>[s for s in v[:count]]\<close>: a list is cut, a string is cut and read character by character,
  and nothing else can be sliced. The text of that error is never seen: \<^verbatim>\<open>suggest_query\<close>
  only logs it.
\<close>

definition slice_suggestion :: "int \<Rightarrow> jval \<Rightarrow> exn + jval list" where
  "slice_suggestion n v =
     (case v of
        JList xs \<Rightarrow> Inr (slice_to n xs)
      | JStr s \<Rightarrow> Inr (map (\<lambda>c. JStr [c]) (slice_to n s))
      | _ \<Rightarrow> Inl (Exn PyException ''object is not subscriptable''))"

fun suggest_loop ::
  "int \<Rightarrow> (string \<times> jval) list \<Rightarrow> (string \<times> jval list) list \<Rightarrow> exn + (string \<times> jval list) list" where
  "suggest_loop n [] acc = Inr acc"
| "suggest_loop n ((word, suggestion_data) # rest) acc =
     (case suggestion_data of
        JDict d \<Rightarrow>
          (case map_of d ''suggestion'' of
             Some v \<Rightarrow> (case slice_suggestion n v of
                         Inl e \<Rightarrow> Inl e
                       | Inr xs \<Rightarrow> suggest_loop n rest (AList.update word xs acc))
           | None \<Rightarrow> suggest_loop n rest acc)
      | _ \<Rightarrow> suggest_loop n rest acc)"

text \<open>The requests that the best-effort operations send.\<close>

definition suggest_request :: "string \<Rightarrow> int \<Rightarrow> params" where
  "suggest_request query n =
     [(''q'', JStr query), (''rows'', JInt 0), (''spellcheck'', JStr ''true''),
      (''spellcheck.count'', JInt n), (''spellcheck.build'', JStr ''true'')]"

definition schema_request :: params where
  "schema_request = [(''q'', JStr ''*:*''), (''rows'', JInt 1), (''fl'', JStr ''*'')]"

definition stats_request :: params where
  "stats_request = [(''q'', JStr ''*:*''), (''rows'', JInt 0)]"

text \<open>\<^verbatim>\<open>(response.spellcheck or {}).get("suggestions", {})\<close>\<close>

definition reply_suggestions :: "Results \<Rightarrow> (string \<times> jval) list" where
  "reply_suggestions response =
     (let spellcheck = (case res_spellcheck response of None \<Rightarrow> [] | Some s \<Rightarrow> s)
      in case map_of spellcheck ''suggestions'' of None \<Rightarrow> [] | Some d \<Rightarrow> d)"

definition suggest_query :: "SOLRClient \<Rightarrow> string \<Rightarrow> int \<Rightarrow> exn + (string \<times> jval list) list" where
  "suggest_query c query n =
     (case (case call_search c (suggest_request query n) of
              Inl e \<Rightarrow> Inl e
            | Inr response \<Rightarrow> suggest_loop n (reply_suggestions response) []) of
        Inr s \<Rightarrow> Inr s
      | Inl e \<Rightarrow> Inr [])"

definition get_schema_fields :: "SOLRClient \<Rightarrow> exn + string list" where
  "get_schema_fields c =
     (case call_search c schema_request of
        Inr response \<Rightarrow>
          (case res_docs response of
             [] \<Rightarrow> Inr []
           | doc # docs \<Rightarrow> Inr (map fst doc))
      | Inl e \<Rightarrow> Inr [])"

definition get_collection_stats :: "SOLRClient \<Rightarrow> exn + (string \<times> jval) list" where
  "get_collection_stats c =
     (case call_search c stats_request of
        Inr response \<Rightarrow>
          Inr [(''total_documents'', JInt (res_hits response)),
               (''collection_name'', JStr (collection (config c))),
               (''solr_url'', JStr (base_url (config c)))]
      | Inl e \<Rightarrow> Inr [])"

section \<open>Notions used in the statements, and example inputs\<close>

text \<open>The facet list of the field \<^verbatim>\<open>category\<close> in \<^verbatim>\<open>test_faceted_search\<close>, and its counts.\<close>

definition category_reply :: "jval list" where
  "category_reply = [JStr ''books'', JInt 5, JStr ''articles'', JInt 3, JStr ''papers'', JInt 1]"




text \<open>A configuration and a call of \<^verbatim>\<open>search\<close> with every argument at its default.\<close>

definition example_config :: SOLRConfig where
  "example_config =
     \<lparr>base_url = ''http://localhost:8983/solr'', collection = ''test_collection'',
      username = None, password = None, timeout = 30, verify_ssl = True, max_rows = 1000,
      default_search_field = ''text'', facet_limit = 100, highlight_enabled = True\<rparr>"

definition example_args :: search_args where
  "example_args =
     \<lparr>arg_query = ''test'', arg_default_field = None, arg_fields = None, arg_start = 0,
      arg_rows = None, arg_sort = None, arg_filters = None, arg_facet_fields = None,
      arg_highlight_fields = None, arg_suggest = False, arg_kwargs = []\<rparr>"

text \<open>The keys that the highlighting block of \<^verbatim>\<open>search\<close> writes.\<close>

definition highlight_keys :: "string list" where
  "highlight_keys = [''hl'', ''hl.fl'', ''hl.simple.pre'', ''hl.simple.post'']"

text \<open>
  The dict of facet fields that \<^verbatim>\<open>_process_search_response\<close> iterates over
  (\<^verbatim>\<open>response.facets.get("facet_fields", {})\<close>, nothing without a facet section), and the
  facet list of a response (empty when the attribute is \<^verbatim>\<open>None\<close>).
\<close>

definition reply_facet_fields :: "Results \<Rightarrow> (string \<times> jval list) list" where
  "reply_facet_fields response =
     (case res_facets response of
        None \<Rightarrow> []
      | Some fs \<Rightarrow> (case map_of fs ''facet_fields'' of None \<Rightarrow> [] | Some d \<Rightarrow> d))"

definition facet_list :: "SearchResponse \<Rightarrow> FacetField list" where
  "facet_list r = (case facets r of None \<Rightarrow> [] | Some fs \<Rightarrow> fs)"

text \<open>
  The reply of \<^verbatim>\<open>test_faceted_search\<close> with one more facet field that has no values, and a
  reply in which no facet field has a complete pair.
\<close>

definition example_reply :: Results where
  "example_reply =
     \<lparr>res_docs = [], res_hits = 0, res_start = None, res_qtime = None, res_highlighting = None,
      res_facets = Some [(''facet_fields'',
                          [(''category'', category_reply),
                           (''author'', [JStr ''smith'', JInt 4, JStr ''jones'', JInt 2]),
                           (''year'', [])])],
      res_spellcheck = None\<rparr>"

definition empty_facets_reply :: Results where
  "empty_facets_reply =
     example_reply\<lparr>res_facets := Some [(''facet_fields'', [(''year'', []), (''tag'', [JStr ''x''])])]\<rparr>"

text \<open>A transport that refuses every request with the given exception, and a client on it.\<close>

definition failing_solr :: "exn \<Rightarrow> Solr" where
  "failing_solr e = \<lparr>solr_ping = (\<lambda>n. Inl e), solr_search = (\<lambda>p. Inl e)\<rparr>"

definition failing_client :: "exn \<Rightarrow> SOLRClient" where
  "failing_client e = \<lparr>config = example_config, solr = Some (failing_solr e)\<rparr>"

text \<open>The prefix that \<^verbatim>\<open>search\<close> puts before the message of the exception it caught.\<close>

definition query_error_prefix :: "exn \<Rightarrow> string" where
  "query_error_prefix e =
     (if exn_cls e = SolrError then ''SOLR query failed: '' else ''Unexpected error during search: '')"

text \<open>
  The candidate list of an entry of the reply's suggestion map: the entry is a dict with a
  list under the key \<^verbatim>\<open>suggestion\<close>.
\<close>

fun candidates :: "jval \<Rightarrow> jval list option" where
  "candidates (JDict d) = (case map_of d ''suggestion'' of Some (JList xs) \<Rightarrow> Some xs | _ \<Rightarrow> None)"
| "candidates v = None"

text \<open>An entry with the key \<^verbatim>\<open>suggestion\<close>, whatever is stored there.\<close>

fun has_suggestion :: "jval \<Rightarrow> bool" where
  "has_suggestion (JDict d) = (map_of d ''suggestion'' \<noteq> None)"
| "has_suggestion v = False"

text \<open>The reply of the spec's example, and a transport that answers every request with a reply.\<close>

definition documnt_reply :: Results where
  "documnt_reply =
     \<lparr>res_docs = [], res_hits = 0, res_start = None, res_qtime = None, res_highlighting = None,
      res_facets = None,
      res_spellcheck = Some [(''suggestions'',
        [(''documnt'', JDict [(''numFound'', JInt 3),
                              (''suggestion'', JList [JStr ''document'', JStr ''documents'',
                                                      JStr ''docent''])]),
         (''collation'', JStr ''document'')])]\<rparr>"

definition replying_solr :: "Results \<Rightarrow> Solr" where
  "replying_solr r = \<lparr>solr_ping = (\<lambda>n. Inr ()), solr_search = (\<lambda>p. Inr r)\<rparr>"

definition replying_client :: "Results \<Rightarrow> SOLRClient" where
  "replying_client r = \<lparr>config = example_config, solr = Some (replying_solr r)\<rparr>"

text \<open>Libraries that hand out a given transport, and the world before the client is built.\<close>

definition example_libs :: "Solr \<Rightarrow> libs" where
  "example_libs s = \<lparr>urljoin = (\<lambda>a b. a @ b), pysolr_Solr = (\<lambda>url auth t v. Inr s)\<rparr>"

definition world0 :: world where
  "world0 = \<lparr>pings = 0, slept = []\<rparr>"

text \<open>A document without the field \<^verbatim>\<open>id\<close>.\<close>

definition untitled_doc :: "(string \<times> jval) list" where
  "untitled_doc = [(''title'', JStr ''Test Document''), (''score'', JFloat (3 / 2))]"

text \<open>
  A reply as the engine sends it: the identifier of a document, when it has one, is a
  string and its score a float; the counts of the facet lists are integers; the candidates
  of the spelling suggestions are strings.
\<close>

fun is_str :: "jval \<Rightarrow> bool" where
  "is_str (JStr s) = True"
| "is_str v = False"

fun is_int :: "jval \<Rightarrow> bool" where
  "is_int (JInt n) = True"
| "is_int v = False"

fun is_score :: "jval \<Rightarrow> bool" where
  "is_score JNull = True"
| "is_score (JFloat r) = True"
| "is_score v = False"

fun is_str_list :: "jval \<Rightarrow> bool" where
  "is_str_list (JList xs) = list_all is_str xs"
| "is_str_list v = False"

definition well_typed_doc :: "(string \<times> jval) list \<Rightarrow> bool" where
  "well_typed_doc doc =
     ((case map_of doc ''id'' of None \<Rightarrow> True | Some v \<Rightarrow> is_str v) \<and>
      (case map_of doc ''score'' of None \<Rightarrow> True | Some v \<Rightarrow> is_score v))"

definition int_counts :: "jval list \<Rightarrow> bool" where
  "int_counts fv = list_all (\<lambda>k. is_int (fv ! (2 * k + 1))) [0..<length fv div 2]"

definition str_candidates :: "jval \<Rightarrow> bool" where
  "str_candidates d =
     (if has_suggestion d
      then (case candidates d of Some xs \<Rightarrow> list_all is_str xs | None \<Rightarrow> False)
      else True)"

definition well_formed_reply :: "Results \<Rightarrow> bool" where
  "well_formed_reply response =
     (list_all well_typed_doc (res_docs response) \<and>
      list_all (\<lambda>(n, fv). int_counts fv) (reply_facet_fields response) \<and>
      list_all (\<lambda>(w, d). str_candidates d) (reply_suggestions response))"

section \<open>Facet decoding\<close>

lemma mk_FacetValue_JInt: "mk_FacetValue rt v (JInt n) = Inr \<lparr>fv_value = v, fv_count = n\<rparr>"
  by (simp add: mk_FacetValue_def validate_int_def)

lemma facet_values_loop_pairs:
  assumes "\<forall>k. i + 2 * k + 1 < length fv \<longrightarrow> fv ! (i + 2 * k + 1) = JInt (c k)"
  shows "facet_values_loop rt fv i acc =
     Inr (acc @ map (\<lambda>k. \<lparr>fv_value = py_str rt (fv ! (i + 2 * k)), fv_count = c k\<rparr>)
                   [0..<(length fv - i) div 2])"
  using assms
proof (induction rt fv i acc arbitrary: c rule: facet_values_loop.induct)
  case (1 rt fv i acc)
  show ?case
  proof (cases "i + 1 < length fv")
    case True
    from "1.prems" True have c0: "fv ! (i + 1) = JInt (c 0)"
      by (metis add.right_neutral mult_0_right)
    let ?x = "\<lparr>fv_value = py_str rt (fv ! i), fv_count = c 0\<rparr>"
    have mk: "mk_FacetValue rt (py_str rt (fv ! i)) (fv ! (i + 1)) = Inr ?x"
      using c0 by (simp add: mk_FacetValue_JInt)
    have prem': "\<forall>k. i + 2 + 2 * k + 1 < length fv \<longrightarrow> fv ! (i + 2 + 2 * k + 1) = JInt (c (Suc k))"
    proof (intro allI impI)
      fix k assume "i + 2 + 2 * k + 1 < length fv"
      then have "i + 2 * Suc k + 1 < length fv" by simp
      with "1.prems" have "fv ! (i + 2 * Suc k + 1) = JInt (c (Suc k))" by blast
      then show "fv ! (i + 2 + 2 * k + 1) = JInt (c (Suc k))" by (simp add: add.commute add.left_commute)
    qed
    have il: "i < length fv" using True by simp
    have IH: "facet_values_loop rt fv (i + 2) (acc @ [?x]) =
       Inr ((acc @ [?x]) @ map (\<lambda>k. \<lparr>fv_value = py_str rt (fv ! (i + 2 + 2 * k)), fv_count = c (Suc k)\<rparr>)
                   [0..<(length fv - (i + 2)) div 2])"
      using "1.IH"(1) [OF il True mk prem'] .
    have len: "(length fv - i) div 2 = Suc ((length fv - (i + 2)) div 2)"
      using True by arith
    show ?thesis
      using il True mk IH len
      by (subst facet_values_loop.simps) (simp add: map_upt_Suc del: upt_Suc)
  next
    case False
    show ?thesis
    proof (cases "i < length fv")
      case True
      with False have eq: "length fv = Suc i" by simp
      have next_: "facet_values_loop rt fv (i + 2) acc = Inr acc"
        by (subst facet_values_loop.simps) (simp add: eq)
      show ?thesis
        using next_ by (subst facet_values_loop.simps) (simp add: eq)
    next
      case F2: False
      then show ?thesis
        by (subst facet_values_loop.simps) simp
    qed
  qed
qed





section \<open>Wire parameters\<close>

lemma map_of_dict_merge: "map_of (dict_merge d kw) = map_of d ++ map_of (rev kw)"
  unfolding dict_merge_def
proof (induction kw arbitrary: d)
  case Nil
  show ?case by simp
next
  case (Cons x kw)
  obtain k v where x: "x = (k, v)" by (cases x)
  show ?case
    by (simp add: x Cons.IH update_conv' map_add_upd_left map_add_def fun_eq_iff split: option.splits)
qed

lemma has_key_iff: "(k \<in> fst ` set al) = (map_of al k \<noteq> None)"
  by (simp add: map_of_eq_None_iff)

lemma map_of_add_default_field: "k \<noteq> ''df'' \<Longrightarrow> map_of (add_default_field a p) k = map_of p k"
  by (simp add: add_default_field_def update_conv')

lemma map_of_add_field_list: "k \<noteq> ''fl'' \<Longrightarrow> map_of (add_field_list a p) k = map_of p k"
  by (simp add: add_field_list_def update_conv')

lemma map_of_add_sort: "k \<noteq> ''sort'' \<Longrightarrow> map_of (add_sort a p) k = map_of p k"
  by (simp add: add_sort_def update_conv')

lemma map_of_add_filter_queries: "k \<noteq> ''fq'' \<Longrightarrow> map_of (add_filter_queries a p) k = map_of p k"
  by (simp add: add_filter_queries_def update_conv')

lemma map_of_add_faceting:
  "k \<notin> {''facet'', ''facet.field'', ''facet.limit'', ''facet.mincount''} \<Longrightarrow>
   map_of (add_faceting cfg a p) k = map_of p k"
  by (simp add: add_faceting_def update_conv')

lemma map_of_add_highlighting:
  "k \<notin> {''hl'', ''hl.fl'', ''hl.simple.pre'', ''hl.simple.post''} \<Longrightarrow>
   map_of (add_highlighting cfg a p) k = map_of p k"
  by (simp add: add_highlighting_def update_conv')

lemma map_of_add_suggestions:
  "k \<notin> {''spellcheck'', ''spellcheck.build'', ''spellcheck.collate''} \<Longrightarrow>
   map_of (add_suggestions a p) k = map_of p k"
  by (simp add: add_suggestions_def update_conv')

lemmas map_of_add =
  map_of_add_default_field map_of_add_field_list map_of_add_sort map_of_add_filter_queries
  map_of_add_faceting map_of_add_highlighting map_of_add_suggestions

lemma kwargs_ok_rows: "kwargs_ok kw \<Longrightarrow> map_of (rev kw) ''rows'' = None"
  by (auto simp: kwargs_ok_def search_parameter_names_def list_all_iff map_of_eq_None_iff)

lemma map_of_build_rows:
  "kwargs_ok (arg_kwargs a) \<Longrightarrow>
   map_of (build_search_parameters cfg a) ''rows'' = Some (JInt (default_rows cfg (arg_rows a)))"
  by (simp add: build_search_parameters_def map_of_dict_merge map_add_def kwargs_ok_rows)

lemma map_of_build_other:
  "k \<notin> {''q'', ''start'', ''rows''} \<Longrightarrow>
   map_of (build_search_parameters cfg a) k = map_of (rev (arg_kwargs a)) k"
  by (simp add: build_search_parameters_def map_of_dict_merge map_add_def split: option.splits)

lemma map_of_search_params_rows:
  "kwargs_ok (arg_kwargs a) \<Longrightarrow>
   map_of (search_params cfg a) ''rows'' = Some (JInt (default_rows cfg (arg_rows a)))"
  by (simp add: search_params_def map_of_add map_of_build_rows)

text \<open>With a configuration that passed its validator, the default row count is in 1..100.\<close>

lemma default_rows_bounds:
  assumes "validate_max_rows (max_rows cfg) = Inr m"
  shows "1 \<le> default_rows cfg None \<and> default_rows cfg None \<le> 100"
  using assms by (simp add: validate_max_rows_def default_rows_def split: if_splits)

text \<open>
  C10. When \<^verbatim>\<open>search\<close> is called without a row count, the parameter \<open>rows\<close> sent to the
  engine is \<open>min(max_rows, 100)\<close>, and so it is 100 for every configuration with
  \<open>max_rows \<ge> 100\<close>: not the configured maximum. (No keyword argument can be named
  \<open>rows\<close>, which is what \<open>kwargs_ok\<close> records.)
\<close>

theorem default_row_count:
  assumes "arg_rows a = None" and "kwargs_ok (arg_kwargs a)"
  shows "map_of (search_params cfg a) ''rows'' = Some (JInt (min (max_rows cfg) 100))
     \<and> (100 \<le> max_rows cfg \<longrightarrow> map_of (search_params cfg a) ''rows'' = Some (JInt 100))"
  using assms by (simp add: map_of_search_params_rows default_rows_def)

theorem default_row_count_witness:
  "arg_rows example_args = None \<and> kwargs_ok (arg_kwargs example_args)
   \<and> 100 \<le> max_rows example_config
   \<and> map_of (search_params example_config example_args) ''rows'' = Some (JInt 100)
   \<and> JInt 100 \<noteq> JInt (max_rows example_config)"
proof -
  have h1: "arg_rows example_args = None" by (simp add: example_args_def)
  have h2: "kwargs_ok (arg_kwargs example_args)" by (simp add: example_args_def kwargs_ok_def)
  have h3: "100 \<le> max_rows example_config" by (simp add: example_config_def)
  from default_row_count [OF h1 h2, of example_config] h3
  have "map_of (search_params example_config example_args) ''rows'' = Some (JInt 100)" by blast
  with h1 h2 h3 show ?thesis by (simp add: example_config_def)
qed

subsection \<open>The field list\<close>

lemma add_field_list_falsy: "\<not> truthy (arg_fields a) \<Longrightarrow> add_field_list a p = p"
  by (simp add: add_field_list_def)

text \<open>A list of fields is sent joined by commas; filters are sent as a list, one value each.\<close>

lemma field_list_given:
  "truthy (arg_fields a) \<Longrightarrow>
   map_of (search_params cfg a) ''fl'' = Some (JStr (join '','' (the (arg_fields a))))"
  by (simp add: search_params_def map_of_add add_field_list_def update_conv')

lemma field_list_example:
  "map_of (search_params example_config (example_args\<lparr>arg_fields := Some [''title'', ''content'']\<rparr>))
     ''fl'' = Some (JStr ''title,content'')"
  by (simp add: field_list_given truthy_def)

lemma filters_given:
  "truthy (arg_filters a) \<Longrightarrow>
   map_of (search_params cfg a) ''fq'' = Some (strs (the (arg_filters a)))"
  by (simp add: search_params_def map_of_add add_filter_queries_def update_conv')

lemma steps_ignore_fields:
  "add_default_field (a\<lparr>arg_fields := fs\<rparr>) p = add_default_field a p"
  "add_sort (a\<lparr>arg_fields := fs\<rparr>) p = add_sort a p"
  "add_filter_queries (a\<lparr>arg_fields := fs\<rparr>) p = add_filter_queries a p"
  "add_faceting cfg (a\<lparr>arg_fields := fs\<rparr>) p = add_faceting cfg a p"
  "add_highlighting cfg (a\<lparr>arg_fields := fs\<rparr>) p = add_highlighting cfg a p"
  "add_suggestions (a\<lparr>arg_fields := fs\<rparr>) p = add_suggestions a p"
  "build_search_parameters cfg (a\<lparr>arg_fields := fs\<rparr>) = build_search_parameters cfg a"
  by (simp_all add: add_default_field_def add_sort_def add_filter_queries_def add_faceting_def
      add_highlighting_def add_suggestions_def build_search_parameters_def)

lemma search_params_fields_irrelevant:
  "\<not> truthy fs \<Longrightarrow>
   search_params cfg (a\<lparr>arg_fields := fs\<rparr>) =
     add_suggestions a (add_highlighting cfg a (add_faceting cfg a (add_filter_queries a
       (add_sort a (add_default_field a (build_search_parameters cfg a))))))"
  by (simp add: search_params_def steps_ignore_fields add_field_list_falsy)

lemma has_key_rev: "(map_of (rev kw) k \<noteq> None) = (k \<in> fst ` set kw)"
  by (simp add: map_of_eq_None_iff)

lemma search_params_key_from_kwargs:
  assumes "map_of (search_params cfg a) k = map_of (rev (arg_kwargs a)) k"
  shows "(k \<in> fst ` set (search_params cfg a)) = (k \<in> fst ` set (arg_kwargs a))"
proof -
  have "(k \<in> fst ` set (search_params cfg a)) = (map_of (search_params cfg a) k \<noteq> None)"
    by (rule has_key_iff)
  also have "\<dots> = (map_of (rev (arg_kwargs a)) k \<noteq> None)"
    by (simp only: assms)
  also have "\<dots> = (k \<in> fst ` set (arg_kwargs a))"
    by (rule has_key_rev)
  finally show ?thesis .
qed

text \<open>
  C8. An empty list of fields to return and no list at all give the same wire parameters,
  whatever the other arguments are; the builder adds no field-list parameter \<open>fl\<close> then: the
  parameters have the key \<open>fl\<close> only if the caller passed it as an extra keyword argument.
\<close>

theorem empty_field_list_is_absent:
  "search_params cfg (a\<lparr>arg_fields := Some []\<rparr>) = search_params cfg (a\<lparr>arg_fields := None\<rparr>)
   \<and> (''fl'' \<in> fst ` set (search_params cfg (a\<lparr>arg_fields := None\<rparr>))) =
       (''fl'' \<in> fst ` set (arg_kwargs a))"
proof -
  have e: "search_params cfg (a\<lparr>arg_fields := Some []\<rparr>) = search_params cfg (a\<lparr>arg_fields := None\<rparr>)"
    by (simp add: search_params_fields_irrelevant truthy_def)
  have "map_of (search_params cfg (a\<lparr>arg_fields := None\<rparr>)) ''fl'' =
        map_of (rev (arg_kwargs (a\<lparr>arg_fields := None\<rparr>))) ''fl''"
    by (simp add: search_params_fields_irrelevant truthy_def map_of_add map_of_build_other)
  then have "(''fl'' \<in> fst ` set (search_params cfg (a\<lparr>arg_fields := None\<rparr>))) =
       (''fl'' \<in> fst ` set (arg_kwargs (a\<lparr>arg_fields := None\<rparr>)))"
    by (rule search_params_key_from_kwargs)
  with e show ?thesis by simp
qed

subsection \<open>Highlighting\<close>

lemma map_of_add_highlighting_given:
  assumes "truthy (arg_highlight_fields a)" and "highlight_enabled cfg"
  shows "map_of (add_highlighting cfg a p) ''hl'' = Some (JStr ''true'')"
    and "map_of (add_highlighting cfg a p) ''hl.fl'' =
           Some (JStr (join '','' (the (arg_highlight_fields a))))"
    and "map_of (add_highlighting cfg a p) ''hl.simple.pre'' = Some (JStr ''<mark>'')"
    and "map_of (add_highlighting cfg a p) ''hl.simple.post'' = Some (JStr ''</mark>'')"
  using assms by (simp_all add: add_highlighting_def update_conv')

lemma map_of_add_highlighting_wildcard:
  assumes "\<not> truthy (arg_highlight_fields a)" and "highlight_enabled cfg"
  shows "map_of (add_highlighting cfg a p) ''hl'' = Some (JStr ''true'')"
    and "map_of (add_highlighting cfg a p) ''hl.fl'' = Some (JStr ''*'')"
    and "map_of (add_highlighting cfg a p) ''hl.simple.pre'' = Some (JStr ''<mark>'')"
    and "map_of (add_highlighting cfg a p) ''hl.simple.post'' = Some (JStr ''</mark>'')"
  using assms by (simp_all add: add_highlighting_def update_conv')

lemma add_highlighting_disabled: "\<not> highlight_enabled cfg \<Longrightarrow> add_highlighting cfg a p = p"
  by (simp add: add_highlighting_def)

lemma search_params_disabled_key:
  assumes "\<not> highlight_enabled cfg" and "k \<in> set highlight_keys"
  shows "map_of (search_params cfg a) k = map_of (rev (arg_kwargs a)) k"
  using assms
  by (auto simp: highlight_keys_def search_params_def add_highlighting_disabled map_of_add
      map_of_build_other)

text \<open>
  C4. With highlighting enabled in the configuration, a non-empty list of highlight fields
  gives \<open>hl = true\<close> and \<open>hl.fl\<close> the given fields joined by commas; no list (or an empty
  one) gives \<open>hl = true\<close> and \<open>hl.fl = *\<close>; in both cases the markers are \<open><mark>\<close> and
  \<open></mark>\<close>. With highlighting disabled the builder adds none of the four highlighting
  parameters: each of them is among the wire parameters only if the caller passed it as an
  extra keyword argument.
\<close>

theorem highlighting_parameters:
  "(truthy (arg_highlight_fields a) \<and> highlight_enabled cfg \<longrightarrow>
      map_of (search_params cfg a) ''hl'' = Some (JStr ''true'') \<and>
      map_of (search_params cfg a) ''hl.fl'' = Some (JStr (join '','' (the (arg_highlight_fields a)))) \<and>
      map_of (search_params cfg a) ''hl.simple.pre'' = Some (JStr ''<mark>'') \<and>
      map_of (search_params cfg a) ''hl.simple.post'' = Some (JStr ''</mark>''))
   \<and> (\<not> truthy (arg_highlight_fields a) \<and> highlight_enabled cfg \<longrightarrow>
      map_of (search_params cfg a) ''hl'' = Some (JStr ''true'') \<and>
      map_of (search_params cfg a) ''hl.fl'' = Some (JStr ''*'') \<and>
      map_of (search_params cfg a) ''hl.simple.pre'' = Some (JStr ''<mark>'') \<and>
      map_of (search_params cfg a) ''hl.simple.post'' = Some (JStr ''</mark>''))
   \<and> (\<not> highlight_enabled cfg \<longrightarrow>
      (\<forall>k \<in> set highlight_keys.
         (k \<in> fst ` set (search_params cfg a)) = (k \<in> fst ` set (arg_kwargs a))))"
proof (intro conjI impI ballI)
  fix k assume "\<not> highlight_enabled cfg" and "k \<in> set highlight_keys"
  then have "map_of (search_params cfg a) k = map_of (rev (arg_kwargs a)) k"
    by (rule search_params_disabled_key)
  then show "(k \<in> fst ` set (search_params cfg a)) = (k \<in> fst ` set (arg_kwargs a))"
    by (rule search_params_key_from_kwargs)
qed (simp_all add: search_params_def map_of_add map_of_add_highlighting_given
      map_of_add_highlighting_wildcard)

theorem highlighting_parameters_witness:
  "(truthy (arg_highlight_fields (example_args\<lparr>arg_highlight_fields := Some [''title'', ''content'']\<rparr>))
      \<and> highlight_enabled example_config
      \<and> map_of (search_params example_config
                  (example_args\<lparr>arg_highlight_fields := Some [''title'', ''content'']\<rparr>)) ''hl''
          = Some (JStr ''true'')
      \<and> map_of (search_params example_config
                  (example_args\<lparr>arg_highlight_fields := Some [''title'', ''content'']\<rparr>)) ''hl.fl''
          = Some (JStr ''title,content''))
   \<and> (\<not> truthy (arg_highlight_fields example_args) \<and> highlight_enabled example_config
      \<and> map_of (search_params example_config example_args) ''hl.fl'' = Some (JStr ''*'')
      \<and> map_of (search_params example_config example_args) ''hl.simple.pre'' = Some (JStr ''<mark>'')
      \<and> map_of (search_params example_config example_args) ''hl.simple.post'' = Some (JStr ''</mark>''))
   \<and> (\<not> highlight_enabled (example_config\<lparr>highlight_enabled := False\<rparr>)
      \<and> ''hl'' \<notin> fst ` set (search_params (example_config\<lparr>highlight_enabled := False\<rparr>) example_args)
      \<and> ''hl.fl'' \<notin> fst ` set (search_params (example_config\<lparr>highlight_enabled := False\<rparr>) example_args))"
proof -
  let ?a = "example_args\<lparr>arg_highlight_fields := Some [''title'', ''content'']\<rparr>"
  let ?c = "example_config\<lparr>highlight_enabled := False\<rparr>"
  have t1: "truthy (arg_highlight_fields ?a)" by (simp add: truthy_def)
  have t2: "\<not> truthy (arg_highlight_fields example_args)" by (simp add: truthy_def example_args_def)
  have e: "highlight_enabled example_config" by (simp add: example_config_def)
  have d: "\<not> highlight_enabled ?c" by simp
  have k: "''hl'' \<in> set highlight_keys" "''hl.fl'' \<in> set highlight_keys"
    by (simp_all add: highlight_keys_def)
  have nokw: "arg_kwargs example_args = []" by (simp add: example_args_def)
  from highlighting_parameters [of ?a example_config] t1 e
  have c1: "map_of (search_params example_config ?a) ''hl'' = Some (JStr ''true'')"
    "map_of (search_params example_config ?a) ''hl.fl'' = Some (JStr ''title,content'')"
    by simp_all
  from highlighting_parameters [of example_args example_config] t2 e
  have c2: "map_of (search_params example_config example_args) ''hl.fl'' = Some (JStr ''*'')"
    "map_of (search_params example_config example_args) ''hl.simple.pre'' = Some (JStr ''<mark>'')"
    "map_of (search_params example_config example_args) ''hl.simple.post'' = Some (JStr ''</mark>'')"
    by simp_all
  from highlighting_parameters [of example_args ?c] d k nokw
  have c3: "''hl'' \<notin> fst ` set (search_params ?c example_args)"
    "''hl.fl'' \<notin> fst ` set (search_params ?c example_args)"
    by simp_all
  from t1 t2 e d c1 c2 c3 show ?thesis by blast
qed

section \<open>Facets of the normalized response\<close>

lemma process_facets_loop:
  "process_facets rt (res_facets response) = facet_fields_loop rt (reply_facet_fields response) []"
  by (simp add: process_facets_def reply_facet_fields_def split: option.splits)

lemma facet_fields_loop_entries:
  assumes "facet_fields_loop rt d acc = Inr fs"
  shows "fs = acc @ map (\<lambda>(n, fv). \<lparr>ff_name = n, ff_values = projr (decode_facet_values rt fv)\<rparr>)
                     (filter (\<lambda>(n, fv). projr (decode_facet_values rt fv) \<noteq> []) d)
         \<and> (\<forall>(n, fv) \<in> set d. \<exists>vs. decode_facet_values rt fv = Inr vs)"
  using assms
proof (induction d arbitrary: acc)
  case Nil
  then show ?case by simp
next
  case (Cons x d)
  obtain n fv where x: "x = (n, fv)" by (cases x)
  from Cons.prems x obtain vs where vs: "decode_facet_values rt fv = Inr vs"
    by (cases "decode_facet_values rt fv") auto
  let ?acc = "if vs \<noteq> [] then acc @ [\<lparr>ff_name = n, ff_values = vs\<rparr>] else acc"
  from Cons.prems x vs have "facet_fields_loop rt d ?acc = Inr fs" by simp
  from Cons.IH [OF this] show ?case using x vs by auto
qed

lemma process_search_response_facets:
  assumes "process_search_response rt response = Inr r"
  shows "\<exists>fs. process_facets rt (res_facets response) = Inr fs
           \<and> facets r = (if fs \<noteq> [] then Some fs else None)"
proof (cases "process_docs rt (res_highlighting response) (res_docs response) []")
  case (Inl e)
  with assms show ?thesis by (simp add: process_search_response_def)
next
  case rs: (Inr rs)
  show ?thesis
  proof (cases "process_facets rt (res_facets response)")
    case (Inl e)
    with assms rs show ?thesis by (simp add: process_search_response_def)
  next
    case fs: (Inr fs)
    show ?thesis
    proof (cases "validate_opt_suggestions rt (process_spellcheck (res_spellcheck response))")
      case (Inl e)
      with assms rs fs show ?thesis by (simp add: process_search_response_def)
    next
      case (Inr sg)
      with assms rs fs have "facets r = (if fs \<noteq> [] then Some fs else None)"
        by (auto simp: process_search_response_def)
      with fs show ?thesis by simp
    qed
  qed
qed

text \<open>The facet list of a normalized response, exactly.\<close>

lemma facet_list_exact:
  assumes "process_search_response rt response = Inr r"
  shows "facet_list r =
     map (\<lambda>(n, fv). \<lparr>ff_name = n, ff_values = projr (decode_facet_values rt fv)\<rparr>)
         (filter (\<lambda>(n, fv). projr (decode_facet_values rt fv) \<noteq> [])
            (reply_facet_fields response))"
proof -
  from process_search_response_facets [OF assms] obtain fs where
    pf: "process_facets rt (res_facets response) = Inr fs" and
    fr: "facets r = (if fs \<noteq> [] then Some fs else None)" by blast
  from pf have "facet_fields_loop rt (reply_facet_fields response) [] = Inr fs"
    by (simp add: process_facets_loop)
  from facet_fields_loop_entries [OF this] fr show ?thesis
    by (simp add: facet_list_def)
qed

text \<open>
  C5. In a normalized response the facets attribute is never an empty list; every entry of
  the facet list is a facet field of the reply together with its decoded values, which are
  not empty (so a field that decodes to no value is not in the list); and when every facet
  field of the reply decodes to no value, or the reply has no facet section, the facets
  attribute is \<^verbatim>\<open>None\<close>.
\<close>

theorem empty_facets_omitted:
  assumes "process_search_response rt response = Inr r"
  shows "facets r \<noteq> Some []
     \<and> (\<forall>ff \<in> set (facet_list r).
          ff_values ff \<noteq> [] \<and>
          (\<exists>fv. (ff_name ff, fv) \<in> set (reply_facet_fields response) \<and>
                decode_facet_values rt fv = Inr (ff_values ff)))
     \<and> ((\<forall>(n, fv) \<in> set (reply_facet_fields response). decode_facet_values rt fv = Inr [])
          \<longrightarrow> facets r = None)"
proof -
  from process_search_response_facets [OF assms] obtain fs where
    pf: "process_facets rt (res_facets response) = Inr fs" and
    fr: "facets r = (if fs \<noteq> [] then Some fs else None)" by blast
  from pf have "facet_fields_loop rt (reply_facet_fields response) [] = Inr fs"
    by (simp add: process_facets_loop)
  from facet_fields_loop_entries [OF this]
  have fs: "fs = map (\<lambda>(n, fv). \<lparr>ff_name = n, ff_values = projr (decode_facet_values rt fv)\<rparr>)
                     (filter (\<lambda>(n, fv). projr (decode_facet_values rt fv) \<noteq> [])
                        (reply_facet_fields response))"
    and ok: "\<forall>(n, fv) \<in> set (reply_facet_fields response). \<exists>vs. decode_facet_values rt fv = Inr vs"
    by simp_all
  have a: "facets r \<noteq> Some []" using fr by simp
  have fl: "facet_list r = fs" using fr by (simp add: facet_list_def)
  have b: "\<forall>ff \<in> set (facet_list r).
          ff_values ff \<noteq> [] \<and>
          (\<exists>fv. (ff_name ff, fv) \<in> set (reply_facet_fields response) \<and>
                decode_facet_values rt fv = Inr (ff_values ff))"
  proof
    fix ff assume "ff \<in> set (facet_list r)"
    with fl fs obtain n fv where m: "(n, fv) \<in> set (reply_facet_fields response)"
      and ne: "projr (decode_facet_values rt fv) \<noteq> []"
      and ff: "ff = \<lparr>ff_name = n, ff_values = projr (decode_facet_values rt fv)\<rparr>"
      by auto
    from ok m obtain vs where "decode_facet_values rt fv = Inr vs" by auto
    with m ne ff show "ff_values ff \<noteq> [] \<and>
          (\<exists>fv. (ff_name ff, fv) \<in> set (reply_facet_fields response) \<and>
                decode_facet_values rt fv = Inr (ff_values ff))"
      by auto
  qed
  have c: "(\<forall>(n, fv) \<in> set (reply_facet_fields response). decode_facet_values rt fv = Inr [])
          \<longrightarrow> facets r = None"
  proof
    assume "\<forall>(n, fv) \<in> set (reply_facet_fields response). decode_facet_values rt fv = Inr []"
    then have "filter (\<lambda>(n, fv). projr (decode_facet_values rt fv) \<noteq> [])
                        (reply_facet_fields response) = []"
      by (auto simp: filter_empty_conv)
    with fs have "fs = []" by simp
    with fr show "facets r = None" by simp
  qed
  from a b c show ?thesis by blast
qed


lemma decode_examples:
  "decode_facet_values rt [] = Inr []"
  "decode_facet_values rt [JStr ''x''] = Inr []"
  "decode_facet_values rt [JStr ''smith'', JInt 4, JStr ''jones'', JInt 2] =
     Inr [\<lparr>fv_value = ''smith'', fv_count = 4\<rparr>, \<lparr>fv_value = ''jones'', fv_count = 2\<rparr>]"
  "decode_facet_values rt category_reply =
     Inr [\<lparr>fv_value = ''books'', fv_count = 5\<rparr>, \<lparr>fv_value = ''articles'', fv_count = 3\<rparr>,
          \<lparr>fv_value = ''papers'', fv_count = 1\<rparr>]"
  by (simp_all add: decode_facet_values_def facet_values_loop.simps mk_FacetValue_JInt py_str_def
      category_reply_def)

lemma no_suggestions: "validate_opt_suggestions rt (process_spellcheck None) = Inr None"
  by (simp add: validate_opt_suggestions_def process_spellcheck_def)

lemma empty_facets_reply_response:
  "process_search_response rt empty_facets_reply =
     Inr \<lparr>results = [], total_found = 0, start = 0, rows = 0, query_time = None, facets = None,
          suggestions = None\<rparr>"
  by (simp add: process_search_response_def empty_facets_reply_def example_reply_def
      process_facets_def decode_examples no_suggestions)

lemma example_reply_response:
  "process_search_response rt example_reply =
     Inr \<lparr>results = [], total_found = 0, start = 0, rows = 0, query_time = None,
          facets = Some [\<lparr>ff_name = ''category'',
                           ff_values = [\<lparr>fv_value = ''books'', fv_count = 5\<rparr>,
                                        \<lparr>fv_value = ''articles'', fv_count = 3\<rparr>,
                                        \<lparr>fv_value = ''papers'', fv_count = 1\<rparr>]\<rparr>,
                         \<lparr>ff_name = ''author'',
                           ff_values = [\<lparr>fv_value = ''smith'', fv_count = 4\<rparr>,
                                        \<lparr>fv_value = ''jones'', fv_count = 2\<rparr>]\<rparr>],
          suggestions = None\<rparr>"
  by (simp add: process_search_response_def example_reply_def
      process_facets_def decode_examples no_suggestions)

theorem empty_facets_omitted_witness:
  "\<forall>rt. (\<exists>r. process_search_response rt empty_facets_reply = Inr r
             \<and> list_all (\<lambda>(n, fv). decode_facet_values rt fv = Inr [])
                  (reply_facet_fields empty_facets_reply)
             \<and> facets r = None)
      \<and> (\<exists>r. process_search_response rt example_reply = Inr r
             \<and> map ff_name (facet_list r) = [''category'', ''author'']
             \<and> list_all (\<lambda>ff. ff_values ff \<noteq> []) (facet_list r)
             \<and> facets r \<noteq> Some [])"
proof (rule allI, rule conjI)
  fix rt
  have all_empty: "\<forall>(n, fv) \<in> set (reply_facet_fields empty_facets_reply).
      decode_facet_values rt fv = Inr []"
    by (simp add: reply_facet_fields_def empty_facets_reply_def decode_examples)
  from empty_facets_omitted [OF empty_facets_reply_response [of rt]] all_empty
  have "facets \<lparr>results = [], total_found = 0, start = 0, rows = 0, query_time = None,
          facets = None, suggestions = None\<rparr> = None"
    by blast
  with all_empty empty_facets_reply_response [of rt]
  show "\<exists>r. process_search_response rt empty_facets_reply = Inr r
             \<and> list_all (\<lambda>(n, fv). decode_facet_values rt fv = Inr [])
                  (reply_facet_fields empty_facets_reply)
             \<and> facets r = None"
    by (simp add: list_all_iff)
next
  fix rt
  from empty_facets_omitted [OF example_reply_response [of rt]]
  show "\<exists>r. process_search_response rt example_reply = Inr r
             \<and> map ff_name (facet_list r) = [''category'', ''author'']
             \<and> list_all (\<lambda>ff. ff_values ff \<noteq> []) (facet_list r)
             \<and> facets r \<noteq> Some []"
    by (simp add: example_reply_response facet_list_def list_all_iff)
qed

section \<open>Failures of the operations\<close>

lemma search_wraps:
  "search_try rt c a = Inl cause \<Longrightarrow>
   search rt c a = Inl (Exn SOLRQueryError (query_error_prefix cause @ exn_str cause))"
  by (simp add: search_def query_error_prefix_def)

lemma search_Inl_cause:
  assumes "search rt c a = Inl e"
  shows "\<exists>cause. search_try rt c a = Inl cause
           \<and> e = Exn SOLRQueryError (query_error_prefix cause @ exn_str cause)"
proof (cases "search_try rt c a")
  case (Inl cause)
  with assms search_wraps [OF Inl] show ?thesis by simp
next
  case (Inr r)
  with assms show ?thesis by (simp add: search_def)
qed

lemma search_try_transport:
  "solr c = Some s \<Longrightarrow> solr_search s (search_params (config c) a) = Inl cause \<Longrightarrow>
   search_try rt c a = Inl cause"
  by (simp add: search_try_def call_search_def)

text \<open>
  C6. Whatever the transport raises for the request (an engine error, \<^verbatim>\<open>pysolr.SolrError\<close>, or
  any other exception), \<^verbatim>\<open>search\<close> raises \<^verbatim>\<open>SOLRQueryError\<close> whose message ends with the
  message of that exception; and every exception that leaves \<^verbatim>\<open>search\<close> is a
  \<^verbatim>\<open>SOLRQueryError\<close> built in this way from the exception raised in its body.
\<close>

theorem search_failures_are_query_errors:
  "(\<forall>s cause. solr c = Some s \<and> solr_search s (search_params (config c) a) = Inl cause \<longrightarrow>
      search rt c a = Inl (Exn SOLRQueryError (query_error_prefix cause @ exn_str cause)))
   \<and> (\<forall>e. search rt c a = Inl e \<longrightarrow>
        exn_cls e = SOLRQueryError \<and>
        (\<exists>cause. search_try rt c a = Inl cause \<and>
                  exn_str e = query_error_prefix cause @ exn_str cause))"
proof (intro conjI allI impI)
  fix s cause
  assume "solr c = Some s \<and> solr_search s (search_params (config c) a) = Inl cause"
  then have "search_try rt c a = Inl cause" by (simp add: search_try_transport)
  then show "search rt c a = Inl (Exn SOLRQueryError (query_error_prefix cause @ exn_str cause))"
    by (rule search_wraps)
next
  fix e assume "search rt c a = Inl e"
  from search_Inl_cause [OF this] show "exn_cls e = SOLRQueryError" by auto
next
  fix e assume "search rt c a = Inl e"
  from search_Inl_cause [OF this]
  show "\<exists>cause. search_try rt c a = Inl cause \<and> exn_str e = query_error_prefix cause @ exn_str cause"
    by auto
qed

theorem search_failures_are_query_errors_witness:
  "\<forall>rt. search rt (failing_client (Exn SolrError ''Connection refused'')) example_args =
          Inl (Exn SOLRQueryError ''SOLR query failed: Connection refused'')
      \<and> search rt (failing_client (Exn PyException ''Read timed out'')) example_args =
          Inl (Exn SOLRQueryError ''Unexpected error during search: Read timed out'')
      \<and> exn_cls (Exn SOLRQueryError ''SOLR query failed: Connection refused'') = SOLRQueryError"
proof (rule allI)
  fix rt
  let ?e1 = "Exn SolrError ''Connection refused''"
  let ?e2 = "Exn PyException ''Read timed out''"
  have t1: "solr (failing_client ?e1) = Some (failing_solr ?e1) \<and>
            solr_search (failing_solr ?e1) (search_params (config (failing_client ?e1)) example_args) = Inl ?e1"
    by (simp add: failing_client_def failing_solr_def)
  have t2: "solr (failing_client ?e2) = Some (failing_solr ?e2) \<and>
            solr_search (failing_solr ?e2) (search_params (config (failing_client ?e2)) example_args) = Inl ?e2"
    by (simp add: failing_client_def failing_solr_def)
  from search_failures_are_query_errors [of "failing_client ?e1" example_args rt] t1
  have r1: "search rt (failing_client ?e1) example_args =
      Inl (Exn SOLRQueryError (query_error_prefix ?e1 @ exn_str ?e1))" by blast
  from search_failures_are_query_errors [of "failing_client ?e2" example_args rt] t2
  have r2: "search rt (failing_client ?e2) example_args =
      Inl (Exn SOLRQueryError (query_error_prefix ?e2 @ exn_str ?e2))" by blast
  from search_failures_are_query_errors [of "failing_client ?e1" example_args rt] r1
  have r3: "exn_cls (Exn SOLRQueryError (query_error_prefix ?e1 @ exn_str ?e1)) = SOLRQueryError"
    by blast
  from r1 r2 r3
  show "search rt (failing_client ?e1) example_args =
          Inl (Exn SOLRQueryError ''SOLR query failed: Connection refused'')
      \<and> search rt (failing_client ?e2) example_args =
          Inl (Exn SOLRQueryError ''Unexpected error during search: Read timed out'')
      \<and> exn_cls (Exn SOLRQueryError ''SOLR query failed: Connection refused'') = SOLRQueryError"
    by (simp add: query_error_prefix_def)
qed

text \<open>After \<^verbatim>\<open>close()\<close> the call of the transport itself raises, and is wrapped in the same way.\<close>

lemma search_after_close:
  "solr c = None \<Longrightarrow>
   search rt c a = Inl (Exn SOLRQueryError (''Unexpected error during search: '' @
                          exn_str (none_attribute_error ''search'')))"
  by (simp add: search_def search_try_def call_search_def none_attribute_error_def)

lemma close_releases: "solr (close c) = None"
  by (simp add: close_def split: option.splits)

lemma close_idempotent: "close (close c) = close c"
  by (simp add: close_def split: option.splits)

lemma search_after_close_fails:
  "\<exists>m. search rt (close c) a = Inl (Exn SOLRQueryError m)"
  by (simp add: search_after_close close_releases)

subsection \<open>Best-effort operations\<close>

lemma ping_never_raises: "fst (ping c w) \<noteq> Inl e"
  by (simp add: ping_def call_ping_def split: option.splits sum.splits prod.splits)

lemma suggest_query_never_raises: "suggest_query c q n \<noteq> Inl e"
  by (simp add: suggest_query_def split: sum.splits)

lemma get_schema_fields_never_raises: "get_schema_fields c \<noteq> Inl e"
  by (simp add: get_schema_fields_def split: sum.splits list.splits)

lemma get_collection_stats_never_raises: "get_collection_stats c \<noteq> Inl e"
  by (simp add: get_collection_stats_def split: sum.splits)

lemma ping_transport_raises:
  "solr c = Some s \<Longrightarrow> solr_ping s (pings w) = Inl e \<Longrightarrow> fst (ping c w) = Inr False"
  by (simp add: ping_def call_ping_def)

lemma suggest_query_transport_raises:
  "solr c = Some s \<Longrightarrow> solr_search s (suggest_request q n) = Inl e \<Longrightarrow> suggest_query c q n = Inr []"
  by (simp add: suggest_query_def call_search_def)

lemma get_schema_fields_transport_raises:
  "solr c = Some s \<Longrightarrow> solr_search s schema_request = Inl e \<Longrightarrow> get_schema_fields c = Inr []"
  by (simp add: get_schema_fields_def call_search_def)

lemma get_collection_stats_transport_raises:
  "solr c = Some s \<Longrightarrow> solr_search s stats_request = Inl e \<Longrightarrow> get_collection_stats c = Inr []"
  by (simp add: get_collection_stats_def call_search_def)

text \<open>
  C7. None of \<^verbatim>\<open>ping\<close>, \<^verbatim>\<open>suggest_query\<close>, \<^verbatim>\<open>get_schema_fields\<close> and
  \<^verbatim>\<open>get_collection_stats\<close> ever raises; and when the transport raises an exception for the
  request of the operation, \<^verbatim>\<open>ping\<close> returns \<^verbatim>\<open>False\<close>, \<^verbatim>\<open>suggest_query\<close> an empty dict,
  \<^verbatim>\<open>get_schema_fields\<close> an empty list and \<^verbatim>\<open>get_collection_stats\<close> an empty dict.
\<close>

theorem best_effort_operations_degrade:
  "(\<forall>e. fst (ping c w) \<noteq> Inl e) \<and> (\<forall>e. suggest_query c q n \<noteq> Inl e)
   \<and> (\<forall>e. get_schema_fields c \<noteq> Inl e) \<and> (\<forall>e. get_collection_stats c \<noteq> Inl e)
   \<and> (\<forall>s e. solr c = Some s \<and> solr_ping s (pings w) = Inl e \<longrightarrow> fst (ping c w) = Inr False)
   \<and> (\<forall>s e. solr c = Some s \<and> solr_search s (suggest_request q n) = Inl e \<longrightarrow>
          suggest_query c q n = Inr [])
   \<and> (\<forall>s e. solr c = Some s \<and> solr_search s schema_request = Inl e \<longrightarrow>
          get_schema_fields c = Inr [])
   \<and> (\<forall>s e. solr c = Some s \<and> solr_search s stats_request = Inl e \<longrightarrow>
          get_collection_stats c = Inr [])"
  by (intro conjI allI impI)
    (simp_all add: ping_never_raises suggest_query_never_raises get_schema_fields_never_raises
      get_collection_stats_never_raises ping_transport_raises suggest_query_transport_raises
      get_schema_fields_transport_raises get_collection_stats_transport_raises)

theorem best_effort_operations_degrade_witness:
  "\<forall>w::world. fst (ping (failing_client (Exn PyException ''Ping failed'')) w) = Inr False
      \<and> suggest_query (failing_client (Exn PyException ''Ping failed'')) ''documnt'' 5 = Inr []
      \<and> get_schema_fields (failing_client (Exn PyException ''Ping failed'')) = Inr []
      \<and> get_collection_stats (failing_client (Exn PyException ''Ping failed'')) = Inr []"
proof (rule allI)
  fix w :: world
  let ?e = "Exn PyException ''Ping failed''"
  let ?c = "failing_client ?e"
  have s: "solr ?c = Some (failing_solr ?e)" by (simp add: failing_client_def)
  have p: "solr_ping (failing_solr ?e) (pings w) = Inl ?e" by (simp add: failing_solr_def)
  have q: "\<And>r. solr_search (failing_solr ?e) r = Inl ?e" by (simp add: failing_solr_def)
  from best_effort_operations_degrade [of ?c w "''documnt''" 5] s p q
  show "fst (ping ?c w) = Inr False \<and> suggest_query ?c ''documnt'' 5 = Inr []
      \<and> get_schema_fields ?c = Inr [] \<and> get_collection_stats ?c = Inr []"
    by blast
qed

section \<open>Spelling suggestions\<close>

lemma update_fresh: "k \<notin> fst ` set al \<Longrightarrow> AList.update k v al = al @ [(k, v)]"
  by (induction al) auto

lemma slice_to_nonneg: "0 \<le> n \<Longrightarrow> slice_to n xs = take (nat n) xs"
  by (simp add: slice_to_def)

lemma suggest_loop_flattens:
  assumes "0 \<le> n"
    and "distinct (map fst sugg)"
    and "fst ` set acc \<inter> fst ` set sugg = {}"
    and "\<forall>(w, d) \<in> set sugg. has_suggestion d \<longrightarrow> candidates d \<noteq> None"
  shows "suggest_loop n sugg acc =
     Inr (acc @ map (\<lambda>(w, d). (w, take (nat n) (the (candidates d))))
                    (filter (\<lambda>(w, d). candidates d \<noteq> None) sugg))"
  using assms
proof (induction sugg arbitrary: acc)
  case Nil
  then show ?case by simp
next
  case (Cons x sugg)
  obtain w d where x: "x = (w, d)" by (cases x)
  from Cons.prems x have fresh: "w \<notin> fst ` set acc" by auto
  from Cons.prems x have wn: "w \<notin> fst ` set sugg" by auto
  from Cons.prems x have dist: "distinct (map fst sugg)" by simp
  from Cons.prems x have rest: "\<forall>(w, d) \<in> set sugg. has_suggestion d \<longrightarrow> candidates d \<noteq> None" by simp
  from Cons.prems x have hd: "has_suggestion d \<longrightarrow> candidates d \<noteq> None" by simp
  show ?case
  proof (cases "candidates d")
    case None
    with hd have nh: "\<not> has_suggestion d" by simp
    from Cons.prems have disj: "fst ` set acc \<inter> fst ` set sugg = {}" by auto
    have step: "suggest_loop n (x # sugg) acc = suggest_loop n sugg acc"
      using nh x by (cases d) (auto split: option.splits)
    show ?thesis
      using Cons.IH [OF Cons.prems(1) dist disj rest] step x None by simp
  next
    case (Some xs)
    then obtain dd where d: "d = JDict dd" and m: "map_of dd ''suggestion'' = Some (JList xs)"
      by (cases d) (auto split: option.splits jval.splits)
    let ?acc = "acc @ [(w, take (nat n) xs)]"
    have step: "suggest_loop n (x # sugg) acc = suggest_loop n sugg ?acc"
      using x d m fresh Cons.prems(1)
      by (simp add: slice_suggestion_def slice_to_nonneg update_fresh)
    from Cons.prems wn have disj: "fst ` set ?acc \<inter> fst ` set sugg = {}" by auto
    show ?thesis
      using Cons.IH [OF Cons.prems(1) dist disj rest] step x Some by simp
  qed
qed

text \<open>
  C9. When the transport answers the request of \<^verbatim>\<open>suggest_query(query, count)\<close> with a reply
  whose suggestion map holds, under the key \<^verbatim>\<open>suggestion\<close> of an entry, a list, the result
  has one item for each entry that has such a list, in the order of the map: the term with
  the first \<open>count\<close> candidates of the list. Entries without the key are skipped.
\<close>

theorem suggest_query_flattens:
  assumes "solr c = Some s"
    and "solr_search s (suggest_request q n) = Inr response"
    and "0 \<le> n"
    and "distinct (map fst (reply_suggestions response))"
    and "\<forall>(w, d) \<in> set (reply_suggestions response). has_suggestion d \<longrightarrow> candidates d \<noteq> None"
  shows "suggest_query c q n =
     Inr (map (\<lambda>(w, d). (w, take (nat n) (the (candidates d))))
              (filter (\<lambda>(w, d). candidates d \<noteq> None) (reply_suggestions response)))"
proof -
  have "suggest_loop n (reply_suggestions response) [] =
     Inr ([] @ map (\<lambda>(w, d). (w, take (nat n) (the (candidates d))))
              (filter (\<lambda>(w, d). candidates d \<noteq> None) (reply_suggestions response)))"
    using assms(3,4,5) by (intro suggest_loop_flattens) simp_all
  with assms(1,2) show ?thesis
    by (simp add: suggest_query_def call_search_def)
qed

lemma documnt_suggestions:
  "reply_suggestions documnt_reply =
     [(''documnt'', JDict [(''numFound'', JInt 3),
                           (''suggestion'', JList [JStr ''document'', JStr ''documents'',
                                                   JStr ''docent''])]),
      (''collation'', JStr ''document'')]"
  by (simp add: reply_suggestions_def documnt_reply_def)

theorem suggest_query_flattens_witness:
  "solr (replying_client documnt_reply) = Some (replying_solr documnt_reply)
   \<and> solr_search (replying_solr documnt_reply) (suggest_request ''documnt'' 2) = Inr documnt_reply
   \<and> distinct (map fst (reply_suggestions documnt_reply))
   \<and> suggest_query (replying_client documnt_reply) ''documnt'' 2 =
       Inr [(''documnt'', [JStr ''document'', JStr ''documents''])]"
proof -
  have h1: "solr (replying_client documnt_reply) = Some (replying_solr documnt_reply)"
    by (simp add: replying_client_def)
  have h2: "solr_search (replying_solr documnt_reply) (suggest_request ''documnt'' 2) = Inr documnt_reply"
    by (simp add: replying_solr_def)
  have h3: "(0::int) \<le> 2" by simp
  have h4: "distinct (map fst (reply_suggestions documnt_reply))"
    by (simp add: documnt_suggestions)
  have h5: "\<forall>(w, d) \<in> set (reply_suggestions documnt_reply). has_suggestion d \<longrightarrow> candidates d \<noteq> None"
    by (simp add: documnt_suggestions)
  from suggest_query_flattens [OF h1 h2 h3 h4 h5]
  have "suggest_query (replying_client documnt_reply) ''documnt'' 2 =
       Inr [(''documnt'', [JStr ''document'', JStr ''documents''])]"
    by (simp add: documnt_suggestions)
  with h1 h2 h4 show ?thesis by simp
qed

text \<open>A negative count is a slice from the end, as in Python.\<close>

lemma suggest_query_negative_count:
  "suggest_query (replying_client documnt_reply) ''documnt'' (- 1) =
     Inr [(''documnt'', [JStr ''document'', JStr ''documents''])]"
  by (simp add: suggest_query_def call_search_def replying_client_def replying_solr_def
      documnt_suggestions slice_suggestion_def slice_to_def)

section \<open>The connection probe\<close>

text \<open>
  The loop for any number \<open>n\<close> of attempts: when the probes fail, attempt \<open>k\<close> (counted from 0)
  is followed by a sleep of \<open>0.5 * (k + 1)\<close> seconds, except the last one, whose exception is
  raised.
\<close>

lemma ping_with_retry_loop_all_fail:
  assumes "attempt < n"
    and "\<forall>k. k < n - attempt \<longrightarrow> isl (solr_ping s (pings w + k))"
  shows "ping_with_retry_loop s (int n) attempt w =
     (solr_ping s (pings w + (n - attempt - 1)),
      w\<lparr>pings := pings w + (n - attempt),
        slept := slept w @ map (\<lambda>k. 1 / 2 * of_nat (k + 1)) [attempt..<n - 1]\<rparr>)"
  using assms
proof (induction "n - attempt - 1" arbitrary: attempt w)
  case 0
  then have last: "attempt = n - 1" by simp
  from "0.prems" have "isl (solr_ping s (pings w + 0))" by (metis zero_less_diff)
  then obtain e where e: "solr_ping s (pings w) = Inl e" by (auto simp: isl_def)
  have "int attempt = int n - 1" using last "0.prems"(1) by simp
  then show ?case
    using e "0.prems"(1) last
    by (subst ping_with_retry_loop.simps) (simp add: call_ping_def)
next
  case (Suc d)
  then have more: "attempt < n - 1" by simp
  from Suc.prems have "isl (solr_ping s (pings w + 0))" by (metis zero_less_diff)
  then obtain e where e: "solr_ping s (pings w) = Inl e" by (auto simp: isl_def)
  let ?w = "sleep (1 / 2 * of_nat (attempt + 1)) (w\<lparr>pings := Suc (pings w)\<rparr>)"
  have d: "d = n - (attempt + 1) - 1" using Suc.hyps(2) by simp
  have lt: "attempt + 1 < n" using more by simp
  have fails: "\<forall>k. k < n - (attempt + 1) \<longrightarrow> isl (solr_ping s (pings ?w + k))"
  proof (intro allI impI)
    fix k assume "k < n - (attempt + 1)"
    then have "Suc k < n - attempt" by simp
    with Suc.prems(2) have "isl (solr_ping s (pings w + Suc k))" by blast
    then show "isl (solr_ping s (pings ?w + k))" by (simp add: sleep_def)
  qed
  note IH = Suc.hyps(1) [OF d lt fails]
  have ne: "int attempt \<noteq> int n - 1" using more by simp
  have upt: "[attempt..<n - 1] = attempt # [attempt + 1..<n - 1]"
    using more by (simp add: upt_conv_Cons)
  have step: "ping_with_retry_loop s (int n) attempt w =
              ping_with_retry_loop s (int n) (attempt + 1) ?w"
    using e Suc.prems(1) ne
    by (subst ping_with_retry_loop.simps) (simp add: call_ping_def)
  have A: "pings ?w + (n - (attempt + 1) - 1) = pings w + (n - attempt - 1)"
    using more by (simp add: sleep_def)
  have B: "pings ?w + (n - (attempt + 1)) = pings w + (n - attempt)"
    using more by (simp add: sleep_def)
  show ?case
    unfolding step IH A B upt by (simp add: sleep_def)
qed

lemma backoff_strictly_increasing:
  "sorted_wrt (<) (map (\<lambda>k. 1 / 2 * of_nat (k + 1) :: rat) [a..<b])"
  by (simp add: sorted_wrt_map sorted_wrt_iff_nth_less)

text \<open>The probe of client construction: three attempts.\<close>

lemma ping_with_retry_bound: "pings (snd (ping_with_retry s 3 w)) \<le> pings w + 3"
  by (simp add: ping_with_retry_def ping_with_retry_loop.simps call_ping_def sleep_def
      split: sum.splits)

lemma ping_with_retry_all_fail:
  assumes "solr_ping s (pings w) = Inl e1"
    and "solr_ping s (pings w + 1) = Inl e2"
    and "solr_ping s (pings w + 2) = Inl e3"
  shows "ping_with_retry s 3 w = (Inl e3, w\<lparr>pings := pings w + 3, slept := slept w @ [1 / 2, 1]\<rparr>)"
  using assms
  by (simp add: ping_with_retry_def ping_with_retry_loop.simps call_ping_def sleep_def
      numeral_2_eq_2 numeral_3_eq_3)

text \<open>
  C2. When the transport object has been built, client construction sends at most 3 probes;
  and when the three probes fail, it has sent exactly 3, has slept 0.5 s after the first
  failure and 1.0 s after the second (0.5 s times the number of the attempt, and nothing
  after the last), and raises \<^verbatim>\<open>SOLRConnectionError\<close> with the message of the last failure.
\<close>

theorem connection_probe_retries:
  assumes "new_solr l cfg = Inr s"
  shows "pings (snd (initialize_connection l cfg w)) \<le> pings w + 3
     \<and> (\<forall>e1 e2 e3. solr_ping s (pings w) = Inl e1 \<and> solr_ping s (pings w + 1) = Inl e2 \<and>
                    solr_ping s (pings w + 2) = Inl e3 \<longrightarrow>
          initialize_connection l cfg w =
            (Inl (Exn SOLRConnectionError (''Failed to connect to SOLR: '' @ exn_str e3)),
             w\<lparr>pings := pings w + 3, slept := slept w @ [1 / 2, 1]\<rparr>))"
proof (intro conjI allI impI)
  have "pings (snd (initialize_connection l cfg w)) = pings (snd (ping_with_retry s 3 w))"
    using assms by (simp add: initialize_connection_def split: prod.splits sum.splits)
  then show "pings (snd (initialize_connection l cfg w)) \<le> pings w + 3"
    by (simp add: ping_with_retry_bound)
next
  fix e1 e2 e3
  assume "solr_ping s (pings w) = Inl e1 \<and> solr_ping s (pings w + 1) = Inl e2 \<and>
          solr_ping s (pings w + 2) = Inl e3"
  then have "ping_with_retry s 3 w =
      (Inl e3, w\<lparr>pings := pings w + 3, slept := slept w @ [1 / 2, 1]\<rparr>)"
    by (simp add: ping_with_retry_all_fail)
  with assms show "initialize_connection l cfg w =
            (Inl (Exn SOLRConnectionError (''Failed to connect to SOLR: '' @ exn_str e3)),
             w\<lparr>pings := pings w + 3, slept := slept w @ [1 / 2, 1]\<rparr>)"
    by (simp add: initialize_connection_def connection_error_def)
qed

theorem connection_probe_retries_witness:
  "new_solr (example_libs (failing_solr (Exn PyException ''Connection failed''))) example_config =
     Inr (failing_solr (Exn PyException ''Connection failed''))
   \<and> initialize_connection (example_libs (failing_solr (Exn PyException ''Connection failed'')))
        example_config world0 =
       (Inl (Exn SOLRConnectionError ''Failed to connect to SOLR: Connection failed''),
        \<lparr>pings = 3, slept = [1 / 2, 1]\<rparr>)"
proof -
  let ?e = "Exn PyException ''Connection failed''"
  let ?s = "failing_solr ?e"
  have h: "new_solr (example_libs ?s) example_config = Inr ?s"
    by (simp add: new_solr_def example_libs_def)
  have p: "solr_ping ?s (pings world0) = Inl ?e \<and> solr_ping ?s (pings world0 + 1) = Inl ?e \<and>
           solr_ping ?s (pings world0 + 2) = Inl ?e"
    by (simp add: failing_solr_def)
  from connection_probe_retries [OF h, of world0] p
  have "initialize_connection (example_libs ?s) example_config world0 =
            (Inl (Exn SOLRConnectionError (''Failed to connect to SOLR: '' @ exn_str ?e)),
             world0\<lparr>pings := pings world0 + 3, slept := slept world0 @ [1 / 2, 1]\<rparr>)"
    by blast
  with h show ?thesis by (simp add: world0_def)
qed

text \<open>A probe that succeeds ends the loop: no sleep, and the client is returned.\<close>

lemma connection_first_probe_succeeds:
  assumes "new_solr l cfg = Inr s" and "solr_ping s (pings w) = Inr ()"
  shows "initialize_connection l cfg w =
           (Inr \<lparr>config = cfg, solr = Some s\<rparr>, w\<lparr>pings := pings w + 1\<rparr>)"
  using assms
  by (simp add: initialize_connection_def ping_with_retry_def ping_with_retry_loop.simps
      call_ping_def)

lemma connection_second_probe_succeeds:
  assumes "new_solr l cfg = Inr s" and "solr_ping s (pings w) = Inl e"
    and "solr_ping s (pings w + 1) = Inr ()"
  shows "initialize_connection l cfg w =
           (Inr \<lparr>config = cfg, solr = Some s\<rparr>, w\<lparr>pings := pings w + 2, slept := slept w @ [1 / 2]\<rparr>)"
  using assms
  by (simp add: initialize_connection_def ping_with_retry_def ping_with_retry_loop.simps
      call_ping_def sleep_def)

section \<open>The identifier of a document\<close>

lemma digit_char_inj:
  assumes "a < 10" and "b < 10" and "digit_char a = digit_char b"
  shows "a = b"
proof -
  have d: "distinct ''0123456789''" by simp
  have l: "length ''0123456789'' = 10" by simp
  from assms show ?thesis
    unfolding digit_char_def using nth_eq_iff_index_eq [OF d, of a b] l by simp
qed

lemma digit_char_not_minus: "d < 10 \<Longrightarrow> digit_char d \<noteq> CHR ''-''"
proof -
  assume "d < 10"
  then have "digit_char d \<in> set ''0123456789''"
    unfolding digit_char_def by (intro nth_mem) simp
  then show ?thesis by auto
qed

lemma str_nat_nonempty: "str_nat n \<noteq> []"
  by (subst str_nat.simps) simp

lemma str_nat_no_minus: "CHR ''-'' \<notin> set (str_nat n)"
proof (induction n rule: str_nat.induct)
  case (1 n)
  show ?case
  proof (cases "n < 10")
    case True
    then show ?thesis
      using digit_char_not_minus [of n] by (subst str_nat.simps) auto
  next
    case False
    have "n mod 10 < 10" by simp
    from digit_char_not_minus [OF this] "1.IH" [OF False] False show ?thesis
      by (subst str_nat.simps) auto
  qed
qed

lemma str_nat_inj: "str_nat n = str_nat m \<Longrightarrow> n = m"
proof (induction n arbitrary: m rule: str_nat.induct)
  case (1 n)
  show ?case
  proof (cases "n < 10")
    case n: True
    show ?thesis
    proof (cases "m < 10")
      case True
      with n "1.prems" have "digit_char n = digit_char m"
        by (simp add: str_nat.simps [of n] str_nat.simps [of m])
      with n True show ?thesis by (rule digit_char_inj)
    next
      case False
      with n "1.prems" have "[digit_char n] = str_nat (m div 10) @ [digit_char (m mod 10)]"
        by (simp add: str_nat.simps [of n] str_nat.simps [of m])
      then have "str_nat (m div 10) = []" by simp
      with str_nat_nonempty show ?thesis by blast
    qed
  next
    case n: False
    show ?thesis
    proof (cases "m < 10")
      case True
      with n "1.prems" have "str_nat (n div 10) @ [digit_char (n mod 10)] = [digit_char m]"
        by (simp add: str_nat.simps [of n] str_nat.simps [of m])
      then have "str_nat (n div 10) = []" by simp
      with str_nat_nonempty show ?thesis by blast
    next
      case False
      with n "1.prems" have
        "str_nat (n div 10) @ [digit_char (n mod 10)] = str_nat (m div 10) @ [digit_char (m mod 10)]"
        by (simp add: str_nat.simps [of n] str_nat.simps [of m])
      then have a: "str_nat (n div 10) = str_nat (m div 10)"
        and b: "digit_char (n mod 10) = digit_char (m mod 10)" by simp_all
      from "1.IH" [OF n a] have q: "n div 10 = m div 10" .
      have "n mod 10 = m mod 10"
        by (rule digit_char_inj [OF _ _ b]) simp_all
      with q show ?thesis by (metis div_mult_mod_eq)
    qed
  qed
qed

lemma str_int_inj: "str_int i = str_int j \<Longrightarrow> i = j"
proof -
  assume eq: "str_int i = str_int j"
  have hd_no_minus: "\<And>n. hd (str_nat n) \<noteq> CHR ''-''"
    using str_nat_no_minus str_nat_nonempty by (metis hd_in_set)
  show ?thesis
  proof (cases "i < 0")
    case i: True
    show ?thesis
    proof (cases "j < 0")
      case True
      with i eq have "str_nat (nat (- i)) = str_nat (nat (- j))" by (simp add: str_int_def)
      then have "nat (- i) = nat (- j)" by (rule str_nat_inj)
      with i True show ?thesis by simp
    next
      case False
      with i eq have "CHR ''-'' # str_nat (nat (- i)) = str_nat (nat j)" by (simp add: str_int_def)
      then have "hd (str_nat (nat j)) = CHR ''-''" by (metis list.sel(1))
      with hd_no_minus show ?thesis by blast
    qed
  next
    case i: False
    show ?thesis
    proof (cases "j < 0")
      case True
      with i eq have "str_nat (nat i) = CHR ''-'' # str_nat (nat (- j))" by (simp add: str_int_def)
      then have "hd (str_nat (nat i)) = CHR ''-''" by (metis list.sel(1))
      with hd_no_minus show ?thesis by blast
    next
      case False
      with i eq have "str_nat (nat i) = str_nat (nat j)" by (simp add: str_int_def)
      then have "nat i = nat j" by (rule str_nat_inj)
      with i False show ?thesis by simp
    qed
  qed
qed

lemma doc_id_present: "map_of doc ''id'' = Some v \<Longrightarrow> doc_id rt doc = v"
  by (simp add: doc_id_def)

lemma doc_id_fallback:
  "map_of doc ''id'' = None \<Longrightarrow>
   doc_id rt doc = JStr (str_int (hash_str rt (repr_val rt (JDict doc))))"
  by (simp add: doc_id_def py_str_def)

lemma process_untitled_doc:
  "process_doc rt None untitled_doc =
     Inr \<lparr>sr_id = str_int (hash_str rt (repr_val rt (JDict untitled_doc))),
          sr_score = Some (3 / 2),
          sr_fields = [(''title'', JStr ''Test Document'')],
          sr_highlighting = None\<rparr>"
  by (simp add: process_doc_def doc_id_def py_str_def untitled_doc_def validate_str_def
      validate_opt_float_def validate_float_def)

text \<open>
  C3. For the document \<open>untitled_doc\<close>, which has no \<^verbatim>\<open>id\<close>, the identifier is the decimal
  text of the interpreter's \<^verbatim>\<open>hash\<close> of the text of the document. Two interpreters (two runs)
  give the same identifier exactly when their hash functions agree on that text: the
  identifier depends on the per-process salt of \<^verbatim>\<open>hash\<close>, not on the content alone.
\<close>

theorem fallback_id_depends_on_hash_salt:
  "(map_sum id sr_id (process_doc (rt\<lparr>hash_str := h1\<rparr>) None untitled_doc) =
    map_sum id sr_id (process_doc (rt\<lparr>hash_str := h2\<rparr>) None untitled_doc))
   = (h1 (repr_val rt (JDict untitled_doc)) = h2 (repr_val rt (JDict untitled_doc)))"
  by (auto simp: process_untitled_doc dest: str_int_inj)

section \<open>A well-formed reply is normalized\<close>

lemma is_str_JStr: "is_str v \<Longrightarrow> \<exists>s. v = JStr s"
  by (cases v) simp_all

lemma is_int_JInt: "is_int v \<Longrightarrow> \<exists>n. v = JInt n"
  by (cases v) simp_all

lemma well_typed_doc_id: "well_typed_doc doc \<Longrightarrow> \<exists>s. doc_id rt doc = JStr s"
  by (auto simp: well_typed_doc_def doc_id_def split: option.splits dest: is_str_JStr)

lemma well_typed_doc_score:
  "well_typed_doc doc \<Longrightarrow> \<exists>sc. validate_opt_float rt (map_of doc ''score'') = Inr sc"
proof -
  assume wt: "well_typed_doc doc"
  show ?thesis
  proof (cases "map_of doc ''score''")
    case None
    then show ?thesis by (simp add: validate_opt_float_def)
  next
    case (Some v)
    with wt have "is_score v" by (simp add: well_typed_doc_def)
    with Some show ?thesis
      by (cases v) (simp_all add: validate_opt_float_def validate_float_def)
  qed
qed

lemma highlighting_get_str: "\<exists>dh. highlighting_get h (JStr s) = Inr dh"
  by (simp add: highlighting_get_def)

lemma process_doc_well_typed:
  assumes "well_typed_doc doc"
  shows "\<exists>r. process_doc rt hl doc = Inr r"
proof -
  from well_typed_doc_id [OF assms] obtain s where s: "doc_id rt doc = JStr s" by blast
  from well_typed_doc_score [OF assms] obtain sc where
    sc: "validate_opt_float rt (map_of doc ''score'') = Inr sc" by blast
  show ?thesis
  proof (cases hl)
    case None
    then show ?thesis by (simp add: process_doc_def Let_def s sc validate_str_def)
  next
    case (Some h)
    obtain dh where dh: "highlighting_get h (JStr s) = Inr dh"
      using highlighting_get_str by blast
    with Some show ?thesis by (simp add: process_doc_def Let_def s sc validate_str_def)
  qed
qed

lemma process_docs_well_typed:
  "list_all well_typed_doc docs \<Longrightarrow> \<exists>rs. process_docs rt hl docs acc = Inr rs"
proof (induction docs arbitrary: acc)
  case Nil
  show ?case by simp
next
  case (Cons doc docs)
  then have "well_typed_doc doc" by simp
  from process_doc_well_typed [OF this] obtain r where "process_doc rt hl doc = Inr r" by blast
  with Cons show ?case by simp
qed

lemma decode_int_counts:
  assumes "int_counts fv"
  shows "\<exists>vs. decode_facet_values rt fv = Inr vs"
proof -
  define c where "c k = (case fv ! (2 * k + 1) of JInt n \<Rightarrow> n | _ \<Rightarrow> 0)" for k
  have "\<forall>k. 0 + 2 * k + 1 < length fv \<longrightarrow> fv ! (0 + 2 * k + 1) = JInt (c k)"
  proof (intro allI impI)
    fix k assume "0 + 2 * k + 1 < length fv"
    then have "k < length fv div 2" by arith
    with assms have "is_int (fv ! (2 * k + 1))" by (simp add: int_counts_def list_all_iff)
    from is_int_JInt [OF this] show "fv ! (0 + 2 * k + 1) = JInt (c k)"
      by (auto simp: c_def)
  qed
  from facet_values_loop_pairs [OF this] show ?thesis
    by (simp add: decode_facet_values_def)
qed

lemma facet_fields_loop_int_counts:
  "list_all (\<lambda>(n, fv). int_counts fv) d \<Longrightarrow> \<exists>fs. facet_fields_loop rt d acc = Inr fs"
proof (induction d arbitrary: acc)
  case Nil
  show ?case by simp
next
  case (Cons x d)
  obtain n fv where x: "x = (n, fv)" by (cases x)
  with Cons.prems have "int_counts fv" by simp
  from decode_int_counts [OF this] obtain vs where "decode_facet_values rt fv = Inr vs" by blast
  with Cons x show ?case by simp
qed

text \<open>The suggestions collected from such a reply are lists of strings, and pass validation.\<close>

lemma update_list_all:
  "list_all P al \<Longrightarrow> P (k, v) \<Longrightarrow> list_all P (AList.update k v al)"
  by (induction al) auto

lemma process_spellcheck_loop:
  "process_spellcheck (res_spellcheck response) = suggestions_loop (reply_suggestions response) []"
  by (simp add: process_spellcheck_def reply_suggestions_def split: option.splits)

lemma str_candidates_value:
  "str_candidates (JDict d) \<Longrightarrow> map_of d ''suggestion'' = Some v \<Longrightarrow> is_str_list v"
  by (cases v) (simp_all add: str_candidates_def)

lemma suggestions_loop_str_lists:
  "list_all (\<lambda>(w, d). str_candidates d) sugg \<Longrightarrow> list_all (\<lambda>(w, v). is_str_list v) acc \<Longrightarrow>
   list_all (\<lambda>(w, v). is_str_list v) (suggestions_loop sugg acc)"
proof (induction sugg arbitrary: acc)
  case Nil
  then show ?case by simp
next
  case (Cons x sugg)
  obtain w d where x: "x = (w, d)" by (cases x)
  with Cons.prems have sc: "str_candidates d" and rest: "list_all (\<lambda>(w, d). str_candidates d) sugg"
    by simp_all
  have "list_all (\<lambda>(w, v). is_str_list v)
          (case d of
             JDict dd \<Rightarrow> (case map_of dd ''suggestion'' of
                           Some v \<Rightarrow> AList.update w v acc
                         | None \<Rightarrow> acc)
           | _ \<Rightarrow> acc)"
    using Cons.prems(2) sc
    by (auto split: jval.splits option.splits intro!: update_list_all dest: str_candidates_value)
  from Cons.IH [OF rest this] x show ?case by simp
qed

lemma validate_strs_ok: "list_all is_str xs \<Longrightarrow> \<exists>ss. validate_strs rt xs = Inr ss"
proof (induction xs)
  case Nil
  show ?case by simp
next
  case (Cons x xs)
  then obtain s ss where "x = JStr s" and "validate_strs rt xs = Inr ss"
    by (auto dest: is_str_JStr)
  then show ?case by (simp add: validate_str_def)
qed

lemma validate_suggestions_ok:
  "list_all (\<lambda>(w, v). is_str_list v) sg \<Longrightarrow> \<exists>xs. validate_suggestions rt sg = Inr xs"
proof (induction sg)
  case Nil
  show ?case by simp
next
  case (Cons x sg)
  obtain w v where x: "x = (w, v)" by (cases x)
  with Cons.prems have "is_str_list v" by simp
  then obtain ys where "v = JList ys" and "list_all is_str ys" by (cases v) simp_all
  with validate_strs_ok [of ys rt] obtain ss where "validate_str_list rt v = Inr ss"
    by (auto simp: validate_str_list_def)
  with Cons x show ?case by auto
qed

lemma well_formed_reply_normalizes:
  assumes "well_formed_reply response"
  shows "\<exists>r. process_search_response rt response = Inr r"
proof -
  from assms have "list_all well_typed_doc (res_docs response)"
    by (simp add: well_formed_reply_def)
  from process_docs_well_typed [OF this] obtain rs where
    rs: "process_docs rt (res_highlighting response) (res_docs response) [] = Inr rs"
    by blast
  from assms have "list_all (\<lambda>(n, fv). int_counts fv) (reply_facet_fields response)"
    by (simp add: well_formed_reply_def)
  from facet_fields_loop_int_counts [OF this] obtain fs where
    fs: "process_facets rt (res_facets response) = Inr fs"
    by (auto simp: process_facets_loop)
  from assms have "list_all (\<lambda>(w, v). is_str_list v) (process_spellcheck (res_spellcheck response))"
    by (simp add: well_formed_reply_def process_spellcheck_loop suggestions_loop_str_lists)
  from validate_suggestions_ok [OF this, of rt] obtain xs where
    "validate_suggestions rt (process_spellcheck (res_spellcheck response)) = Inr xs"
    by blast
  then have "\<exists>sg. validate_opt_suggestions rt (process_spellcheck (res_spellcheck response)) = Inr sg"
    by (simp add: validate_opt_suggestions_def)
  then obtain sg where
    "validate_opt_suggestions rt (process_spellcheck (res_spellcheck response)) = Inr sg"
    by blast
  with rs fs show ?thesis by (simp add: process_search_response_def)
qed

end
